theory Spec2Isabelle
  imports Complex_Main "HOL-Library.Char_ord" "HOL-Library.List_Lexorder"
begin

section \<open>Data model\<close>

text \<open>
  The composer (class \<open>Pdf\<close>) and the density models it embeds compute on C++ doubles.
  The composer is modelled over an arbitrary number type \<open>'d\<close>, its arithmetic being
  supplied as a record of operations, so that nothing is assumed about what a double
  division by zero returns. The three-body decay density is modelled over the reals:
  its claims are about which grid points and which candidates the code visits. A real
  quotient does not represent a double division by a zero normalization, so what is proved
  about values of the density is proved for a normalization that is not zero.
\<close>

text \<open>
  Every failure of the code is a \<open>PdfException\<close> carrying a message; the constructors
  name the messages as the specification does. \<open>UndefinedBehaviour\<close> stands for the
  places where the C++ dereferences an iterator past the end of its container.
\<close>

datatype error =
    ArgumentCountMismatch
  | UnknownName
  | IncompatibleVariablesError
  | OverlappingVariablesError
  | DependencyError
  | StackUnderflowError
  | MalformedExpressionError
  | UnknownOperatorError
  | UndefinedBehaviour

record 'd Variable =
  v_name :: string
  v_value :: 'd
  v_error :: 'd

record 'd Parameter =
  p_name :: string
  p_value :: 'd
  p_error :: 'd

text \<open>The identifiers of \<open>Operation::Op\<close> that the composer compares against.\<close>

datatype Op = Op_plus | Op_minus | Op_mult | Op_div | Op_pow
  | Op_exp | Op_log | Op_sin | Op_cos | Op_tan

subsection \<open>\<open>std::map\<close> with string keys\<close>

text \<open>
  A \<open>std::map<std::string, V>\<close> is an association list that the operations keep in
  increasing key order; \<open>std::string\<close> compares lexicographically by bytes.
\<close>

type_synonym 'v smap = "(string \<times> 'v) list"

definition smap_keys :: "'v smap \<Rightarrow> string list" where
  "smap_keys m = map fst m"

definition smap_count :: "string \<Rightarrow> 'v smap \<Rightarrow> bool" where
  "smap_count k m = (k \<in> set (smap_keys m))"

definition smap_find :: "string \<Rightarrow> 'v smap \<Rightarrow> 'v option" where
  "smap_find k m = map_of m k"

text \<open>\<open>insert(value)\<close>: an entry whose key is present already is not inserted.\<close>

definition smap_insert :: "string \<times> 'v \<Rightarrow> 'v smap \<Rightarrow> 'v smap" where
  "smap_insert kv m = (if smap_count (fst kv) m then m else insort_key fst kv m)"

text \<open>\<open>insert(first, last)\<close>: the entries of the range, one by one.\<close>

definition smap_insert_range :: "'v smap \<Rightarrow> 'v smap \<Rightarrow> 'v smap" where
  "smap_insert_range src m = fold smap_insert src m"

text \<open>\<open>m[k] = v\<close>: the entry is overwritten when the key is present.\<close>

definition smap_assign :: "string \<Rightarrow> 'v \<Rightarrow> 'v smap \<Rightarrow> 'v smap" where
  "smap_assign k v m =
     (if smap_count k m then map (\<lambda>kv. if fst kv = k then (k, v) else kv) m
      else insort_key fst (k, v) m)"

definition smap_sorted :: "'v smap \<Rightarrow> bool" where
  "smap_sorted m = sorted_wrt (<) (smap_keys m)"

subsection \<open>\<open>std::set_intersection\<close> and \<open>std::set_union\<close> on vectors\<close>

fun set_intersection :: "'a::linorder list \<Rightarrow> 'a list \<Rightarrow> 'a list" where
  "set_intersection [] ys = []"
| "set_intersection xs [] = []"
| "set_intersection (x # xs) (y # ys) =
     (if x < y then set_intersection xs (y # ys)
      else if y < x then set_intersection (x # xs) ys
      else x # set_intersection xs ys)"

fun set_union :: "'a::linorder list \<Rightarrow> 'a list \<Rightarrow> 'a list" where
  "set_union [] ys = ys"
| "set_union xs [] = xs"
| "set_union (x # xs) (y # ys) =
     (if y < x then y # set_union (x # xs) ys
      else if x < y then x # set_union xs (y # ys)
      else x # set_union xs ys)"

subsection \<open>Density models and the composite expression\<close>

text \<open>
  A \<open>PdfModel\<close> owns its variable and parameter maps. Its two virtual \<open>evaluate\<close>
  methods are fields: the value of \<open>evaluate()\<close> in the model's present state, and the
  positional \<open>evaluate(values)\<close>.
\<close>

record 'd PdfModel =
  mdl_varMap :: "'d Variable smap"
  mdl_parMap :: "'d Parameter smap"
  mdl_evaluate0 :: "error + 'd"
  mdl_evaluate :: "'d list \<Rightarrow> error + 'd"

text \<open>
  The composite holds non-owning handles \<open>PdfModel*\<close>: addresses into a store of models.
\<close>

type_synonym addr = nat
type_synonym 'd store = "addr \<Rightarrow> 'd PdfModel option"

record 'd ParameterExpr =
  pe_pars :: "'d Parameter list"
  pe_ctnts :: "'d list"
  pe_opers :: "Op list"
  pe_expression :: string

record 'd Pdf =
  pdf_varMap :: "'d Variable smap"
  pdf_parMap :: "'d Parameter smap"
  pdf_pdfs :: "addr list"
  pdf_pars :: "'d Parameter list"
  pdf_ctnts :: "'d list"
  pdf_opers :: "Op list"
  pdf_expression :: string

text \<open>The default-constructed composite.\<close>

definition empty_Pdf :: "'d Pdf" where
  "empty_Pdf = \<lparr>pdf_varMap = [], pdf_parMap = [], pdf_pdfs = [], pdf_pars = [],
     pdf_ctnts = [], pdf_opers = [], pdf_expression = []\<rparr>"

text \<open>
  Modelled from the spec: \<open>varNames()\<close> of a model and of a composite (declared in headers
  that are not among the sources) return the sorted unique names, the keys of the variable
  map in the map's order.
\<close>

definition mdl_varNames :: "'d PdfModel \<Rightarrow> string list" where
  "mdl_varNames m = smap_keys (mdl_varMap m)"

definition pdf_varNames :: "'d Pdf \<Rightarrow> string list" where
  "pdf_varNames p = smap_keys (pdf_varMap p)"

section \<open>The expression composer\<close>

subsection \<open>Append\<close>

text \<open>
  \<open>append(const PdfModel&)\<close>: the reference is the address \<open>a\<close> together with the model
  \<open>m\<close> stored there.
\<close>

definition append_model :: "addr \<Rightarrow> 'd PdfModel \<Rightarrow> 'd Pdf \<Rightarrow> 'd Pdf" where
  "append_model a m p = p\<lparr>
     pdf_varMap := smap_insert_range (mdl_varMap m) (pdf_varMap p),
     pdf_parMap := smap_insert_range (mdl_parMap m) (pdf_parMap p),
     pdf_pdfs := pdf_pdfs p @ [a],
     pdf_expression := pdf_expression p @ ''m''\<rparr>"

definition append_pdf :: "'d Pdf \<Rightarrow> 'd Pdf \<Rightarrow> 'd Pdf" where
  "append_pdf q p = p\<lparr>
     pdf_varMap := smap_insert_range (pdf_varMap q) (pdf_varMap p),
     pdf_parMap := smap_insert_range (pdf_parMap q) (pdf_parMap p),
     pdf_opers := pdf_opers p @ pdf_opers q,
     pdf_ctnts := pdf_ctnts p @ pdf_ctnts q,
     pdf_pars := pdf_pars p @ pdf_pars q,
     pdf_pdfs := pdf_pdfs p @ pdf_pdfs q,
     pdf_expression := pdf_expression p @ pdf_expression q\<rparr>"

definition append_par :: "'d Parameter \<Rightarrow> 'd Pdf \<Rightarrow> 'd Pdf" where
  "append_par par p = p\<lparr>
     pdf_parMap := smap_assign (p_name par) par (pdf_parMap p),
     pdf_pars := pdf_pars p @ [par],
     pdf_expression := pdf_expression p @ ''p''\<rparr>"

definition append_expr :: "'d ParameterExpr \<Rightarrow> 'd Pdf \<Rightarrow> 'd Pdf" where
  "append_expr e p = p\<lparr>
     pdf_parMap := fold (\<lambda>par. smap_assign (p_name par) par) (pe_pars e) (pdf_parMap p),
     pdf_opers := pdf_opers p @ pe_opers e,
     pdf_ctnts := pdf_ctnts p @ pe_ctnts e,
     pdf_pars := pdf_pars p @ pe_pars e,
     pdf_expression := pdf_expression p @ pe_expression e\<rparr>"

definition append_ctnt :: "'d \<Rightarrow> 'd Pdf \<Rightarrow> 'd Pdf" where
  "append_ctnt c p = p\<lparr>
     pdf_ctnts := pdf_ctnts p @ [c],
     pdf_expression := pdf_expression p @ ''c''\<rparr>"

definition append_oper :: "Op \<Rightarrow> 'd Pdf \<Rightarrow> 'd Pdf" where
  "append_oper oper p = p\<lparr>
     pdf_opers := pdf_opers p @ [oper],
     pdf_expression := pdf_expression p @ ''b''\<rparr>"

subsection \<open>Assignment and compound assignment\<close>

text \<open>
  An operation that may throw returns the exception, if any, and the composite as it is
  left behind.
\<close>

definition assign_model :: "addr \<Rightarrow> 'd PdfModel \<Rightarrow> 'd Pdf \<Rightarrow> 'd Pdf" where
  "assign_model a right p = append_model a right p"

definition plus_assign_model :: "addr \<Rightarrow> 'd PdfModel \<Rightarrow> 'd Pdf \<Rightarrow> error option \<times> 'd Pdf" where
  "plus_assign_model a right p =
     (if pdf_varNames p \<noteq> mdl_varNames right then (Some IncompatibleVariablesError, p)
      else (None, append_oper Op_plus (append_model a right p)))"

definition mult_assign_model :: "addr \<Rightarrow> 'd PdfModel \<Rightarrow> 'd Pdf \<Rightarrow> error option \<times> 'd Pdf" where
  "mult_assign_model a right p =
     (let theseVars = pdf_varNames p;
          rightVars = mdl_varNames right;
          intersect = set_intersection theseVars rightVars
      in if intersect \<noteq> [] then (Some OverlappingVariablesError, p)
         else (None, append_oper Op_mult (append_model a right p)))"

definition plus_assign_pdf :: "'d Pdf \<Rightarrow> 'd Pdf \<Rightarrow> error option \<times> 'd Pdf" where
  "plus_assign_pdf right p =
     (if pdf_varNames p \<noteq> pdf_varNames right then (Some IncompatibleVariablesError, p)
      else (None, append_oper Op_plus (append_pdf right p)))"

definition mult_assign_pdf :: "'d Pdf \<Rightarrow> 'd Pdf \<Rightarrow> error option \<times> 'd Pdf" where
  "mult_assign_pdf right p =
     (let theseVars = pdf_varNames p;
          rightVars = pdf_varNames right;
          intersect = set_intersection theseVars rightVars
      in if intersect \<noteq> [] then (Some OverlappingVariablesError, p)
         else (None, append_oper Op_mult (append_pdf right p)))"

definition mult_assign_par :: "'d Parameter \<Rightarrow> 'd Pdf \<Rightarrow> 'd Pdf" where
  "mult_assign_par right p = append_oper Op_mult (append_par right p)"

definition div_assign_par :: "'d Parameter \<Rightarrow> 'd Pdf \<Rightarrow> 'd Pdf" where
  "div_assign_par right p = append_oper Op_div (append_par right p)"

definition mult_assign_expr :: "'d ParameterExpr \<Rightarrow> 'd Pdf \<Rightarrow> 'd Pdf" where
  "mult_assign_expr right p = append_oper Op_mult (append_expr right p)"

definition div_assign_expr :: "'d ParameterExpr \<Rightarrow> 'd Pdf \<Rightarrow> 'd Pdf" where
  "div_assign_expr right p = append_oper Op_div (append_expr right p)"

definition mult_assign_ctnt :: "'d \<Rightarrow> 'd Pdf \<Rightarrow> 'd Pdf" where
  "mult_assign_ctnt right p = append_oper Op_mult (append_ctnt right p)"

definition div_assign_ctnt :: "'d \<Rightarrow> 'd Pdf \<Rightarrow> 'd Pdf" where
  "div_assign_ctnt right p = append_oper Op_div (append_ctnt right p)"

subsection \<open>Evaluation\<close>

text \<open>The double arithmetic the evaluator uses, and the functions of \<open><cmath>\<close>.\<close>

record 'd arith =
  fadd :: "'d \<Rightarrow> 'd \<Rightarrow> 'd"
  fsub :: "'d \<Rightarrow> 'd \<Rightarrow> 'd"
  fmul :: "'d \<Rightarrow> 'd \<Rightarrow> 'd"
  fdiv :: "'d \<Rightarrow> 'd \<Rightarrow> 'd"
  fpow :: "'d \<Rightarrow> 'd \<Rightarrow> 'd"
  fneg :: "'d \<Rightarrow> 'd"
  fexp :: "'d \<Rightarrow> 'd"
  flog :: "'d \<Rightarrow> 'd"
  fsin :: "'d \<Rightarrow> 'd"
  fcos :: "'d \<Rightarrow> 'd"
  ftan :: "'d \<Rightarrow> 'd"

text \<open>Binary operations: \<open>operate(x, y, oper)\<close>.\<close>

definition operate2 :: "'d arith \<Rightarrow> 'd \<Rightarrow> 'd \<Rightarrow> Op \<Rightarrow> error + 'd" where
  "operate2 F x y oper =
     (if oper = Op_plus then Inr (fadd F x y)
      else if oper = Op_minus then Inr (fsub F x y)
      else if oper = Op_mult then Inr (fmul F x y)
      else if oper = Op_div then Inr (fdiv F x y)
      else if oper = Op_pow then Inr (fpow F x y)
      else Inl UnknownOperatorError)"

text \<open>Unary operations: \<open>operate(x, oper)\<close>.\<close>

definition operate1 :: "'d arith \<Rightarrow> 'd \<Rightarrow> Op \<Rightarrow> error + 'd" where
  "operate1 F x oper =
     (if oper = Op_minus then Inr (fneg F x)
      else if oper = Op_exp then Inr (fexp F x)
      else if oper = Op_log then Inr (flog F x)
      else if oper = Op_sin then Inr (fsin F x)
      else if oper = Op_cos then Inr (fcos F x)
      else if oper = Op_tan then Inr (ftan F x)
      else Inl UnknownOperatorError)"

text \<open>
  The four iterators over the parallel collections and the operand stack (top first).
\<close>

record 'd cursor =
  c_pdf :: "addr list"
  c_par :: "'d Parameter list"
  c_ctt :: "'d list"
  c_ops :: "Op list"
  c_values :: "'d list"

text \<open>
  One character of the expression. The two \<open>evaluate\<close> loops of the source differ in the
  model-leaf branch only, which is the argument \<open>leaf\<close>.
\<close>

definition eval_step ::
  "'d arith \<Rightarrow> ('d PdfModel \<Rightarrow> error + 'd) \<Rightarrow> 'd store \<Rightarrow> 'd Parameter smap \<Rightarrow>
   char \<Rightarrow> 'd cursor \<Rightarrow> error + 'd cursor" where
  "eval_step F leaf h parMap ch cu =
     (if ch = CHR ''m'' then
        (case c_pdf cu of
           [] \<Rightarrow> Inl UndefinedBehaviour
         | a # rest \<Rightarrow>
             (case h a of
                None \<Rightarrow> Inl UndefinedBehaviour
              | Some m \<Rightarrow>
                  (case leaf m of
                     Inl e \<Rightarrow> Inl e
                   | Inr v \<Rightarrow> Inr (cu\<lparr>c_pdf := rest, c_values := v # c_values cu\<rparr>))))
      else if ch = CHR ''p'' then
        (case c_par cu of
           [] \<Rightarrow> Inl UndefinedBehaviour
         | par # rest \<Rightarrow>
             (case smap_find (p_name par) parMap of
                None \<Rightarrow> Inl UndefinedBehaviour
              | Some q \<Rightarrow> Inr (cu\<lparr>c_par := rest, c_values := p_value q # c_values cu\<rparr>)))
      else if ch = CHR ''c'' then
        (case c_ctt cu of
           [] \<Rightarrow> Inl UndefinedBehaviour
         | c # rest \<Rightarrow> Inr (cu\<lparr>c_ctt := rest, c_values := c # c_values cu\<rparr>))
      else if ch = CHR ''b'' then
        (case c_values cu of
           y # x # stack \<Rightarrow>
             (case c_ops cu of
                [] \<Rightarrow> Inl UndefinedBehaviour
              | oper # rest \<Rightarrow>
                  (case operate2 F x y oper of
                     Inl e \<Rightarrow> Inl e
                   | Inr v \<Rightarrow> Inr (cu\<lparr>c_ops := rest, c_values := v # stack\<rparr>)))
         | _ \<Rightarrow> Inl StackUnderflowError)
      else if ch = CHR ''u'' then
        (case c_values cu of
           [] \<Rightarrow> Inl StackUnderflowError
         | x # stack \<Rightarrow>
             (case c_ops cu of
                [] \<Rightarrow> Inl UndefinedBehaviour
              | oper # rest \<Rightarrow>
                  (case operate1 F x oper of
                     Inl e \<Rightarrow> Inl e
                   | Inr v \<Rightarrow> Inr (cu\<lparr>c_ops := rest, c_values := v # stack\<rparr>))))
      else Inl UnknownOperatorError)"

fun eval_loop ::
  "'d arith \<Rightarrow> ('d PdfModel \<Rightarrow> error + 'd) \<Rightarrow> 'd store \<Rightarrow> 'd Parameter smap \<Rightarrow>
   string \<Rightarrow> 'd cursor \<Rightarrow> error + 'd cursor" where
  "eval_loop F leaf h parMap [] cu = Inr cu"
| "eval_loop F leaf h parMap (ch # chs) cu =
     (case eval_step F leaf h parMap ch cu of
        Inl e \<Rightarrow> Inl e
      | Inr cu' \<Rightarrow> eval_loop F leaf h parMap chs cu')"

definition run_program ::
  "'d arith \<Rightarrow> ('d PdfModel \<Rightarrow> error + 'd) \<Rightarrow> 'd store \<Rightarrow> 'd Pdf \<Rightarrow> error + 'd" where
  "run_program F leaf h p =
     (case eval_loop F leaf h (pdf_parMap p) (pdf_expression p)
             \<lparr>c_pdf = pdf_pdfs p, c_par = pdf_pars p, c_ctt = pdf_ctnts p,
              c_ops = pdf_opers p, c_values = []\<rparr> of
        Inl e \<Rightarrow> Inl e
      | Inr cu \<Rightarrow>
          (case c_values cu of
             [v] \<Rightarrow> Inr v
           | _ \<Rightarrow> Inl MalformedExpressionError))"

text \<open>\<open>evaluate()\<close>: every model evaluates itself on its last-set variables.\<close>

definition evaluate :: "'d arith \<Rightarrow> 'd store \<Rightarrow> 'd Pdf \<Rightarrow> error + 'd" where
  "evaluate F h p = run_program F mdl_evaluate0 h p"

text \<open>
  \<open>evaluate(vars)\<close>: the values are filed under the composite's variable names in the
  map's order, and each model receives the values of its own variables.
\<close>

definition localVars_of :: "'d Variable smap \<Rightarrow> 'd list \<Rightarrow> 'd smap" where
  "localVars_of varMap vars =
     fold (\<lambda>kx. smap_assign (fst kx) (snd kx)) (zip (smap_keys varMap) vars) []"

fun modelVars_of :: "'d smap \<Rightarrow> 'd Variable smap \<Rightarrow> error + 'd list" where
  "modelVars_of localVars [] = Inr []"
| "modelVars_of localVars (var # pdfVars) =
     (case smap_find (v_name (snd var)) localVars of
        None \<Rightarrow> Inl UndefinedBehaviour
      | Some x \<Rightarrow>
          (case modelVars_of localVars pdfVars of
             Inl e \<Rightarrow> Inl e
           | Inr xs \<Rightarrow> Inr (x # xs)))"

definition leaf_vec :: "'d smap \<Rightarrow> 'd PdfModel \<Rightarrow> error + 'd" where
  "leaf_vec localVars m =
     (case modelVars_of localVars (mdl_varMap m) of
        Inl e \<Rightarrow> Inl e
      | Inr modelVars \<Rightarrow> mdl_evaluate m modelVars)"

definition evaluate_vec :: "'d arith \<Rightarrow> 'd store \<Rightarrow> 'd Pdf \<Rightarrow> 'd list \<Rightarrow> error + 'd" where
  "evaluate_vec F h p vars =
     (if length (pdf_varMap p) \<noteq> length vars then Inl ArgumentCountMismatch
      else run_program F (leaf_vec (localVars_of (pdf_varMap p) vars)) h p)"

subsection \<open>Shared variables\<close>

record cv_state =
  cv_calcs :: "string list list"
  cv_models :: "addr list"
  cv_varNames :: "string list"

text \<open>
  One character of the expression in \<open>commonVars()\<close>. The vector \<open>varNames\<close> is declared
  before the loop and is appended to at every model leaf.
\<close>

definition cv_step :: "'d store \<Rightarrow> char \<Rightarrow> cv_state \<Rightarrow> error + cv_state" where
  "cv_step h ch st =
     (if ch = CHR ''m'' then
        (case cv_models st of
           [] \<Rightarrow> Inl UndefinedBehaviour
         | a # rest \<Rightarrow>
             (case h a of
                None \<Rightarrow> Inl UndefinedBehaviour
              | Some m \<Rightarrow>
                  (let varNames = cv_varNames st @ map fst (mdl_varMap m)
                   in Inr \<lparr>cv_calcs = varNames # cv_calcs st, cv_models = rest,
                           cv_varNames = varNames\<rparr>)))
      else if ch = CHR ''p'' then Inr (st\<lparr>cv_calcs := [] # cv_calcs st\<rparr>)
      else
        (case cv_calcs st of
           x # y # calcs \<Rightarrow>
             (let z = (if ch = CHR ''+'' then set_intersection x y
                       else if ch = CHR ''*'' then set_union x y
                       else [])
              in Inr (st\<lparr>cv_calcs := z # calcs\<rparr>))
         | _ \<Rightarrow> Inl StackUnderflowError))"

fun cv_loop :: "'d store \<Rightarrow> string \<Rightarrow> cv_state \<Rightarrow> error + cv_state" where
  "cv_loop h [] st = Inr st"
| "cv_loop h (ch # chs) st =
     (case cv_step h ch st of
        Inl e \<Rightarrow> Inl e
      | Inr st' \<Rightarrow> cv_loop h chs st')"

definition commonVars :: "'d store \<Rightarrow> 'd Pdf \<Rightarrow> error + string list" where
  "commonVars h p =
     (case cv_loop h (pdf_expression p)
             \<lparr>cv_calcs = [], cv_models = pdf_pdfs p, cv_varNames = []\<rparr> of
        Inl e \<Rightarrow> Inl e
      | Inr st \<Rightarrow>
          (case cv_calcs st of
             [z] \<Rightarrow> Inr z
           | _ \<Rightarrow> Inl MalformedExpressionError))"

section \<open>The three-body decay density\<close>

subsection \<open>Collaborators\<close>

text \<open>
  The phase-space geometry, the amplitude, the auxiliary functions and the random source
  are classes of the repository whose code is not among the sources. Their accessors are
  fields, with the names the density calls them by.
\<close>

record PhaseSpace =
  ps_m1 :: real
  ps_m2 :: real
  ps_m3 :: real
  ps_mMother :: real
  ps_mSq1 :: real
  ps_mSq2 :: real
  ps_mSq3 :: real
  ps_mSqMother :: real
  ps_mSqSum :: real
  ps_mSq12min :: real
  ps_mSq12max :: real
  ps_mSqMin :: "nat \<Rightarrow> real"
  ps_mSqMax :: "nat \<Rightarrow> real"
  ps_contains :: "real \<Rightarrow> real \<Rightarrow> real \<Rightarrow> bool"

type_synonym Amplitude = "PhaseSpace \<Rightarrow> real \<Rightarrow> real \<Rightarrow> real \<Rightarrow> complex"

record Function =
  fn_varMap :: "real Variable smap"
  fn_parMap :: "real Parameter smap"
  fn_dependsOn :: "string \<Rightarrow> bool"
  fn_evaluate :: "real smap \<Rightarrow> real"

text \<open>
  Modelled from the spec: the uniform random source \<open>flat(min, max)\<close>. The source is a
  stream of draws from the unit interval; a call scales the next draw to the interval
  asked for and advances the stream.
\<close>

type_synonym rng = "nat \<Rightarrow> real"

definition Random_flat :: "real \<Rightarrow> real \<Rightarrow> rng \<Rightarrow> real \<times> rng" where
  "Random_flat lo hi rs = (lo + (hi - lo) * rs 0, \<lambda>n. rs (Suc n))"

subsection \<open>State\<close>

text \<open>
  \<open>d_getVar\<close> is \<open>getVar(index)\<close> of the base class, which is not among the sources.
\<close>

record Decay3Body =
  d_varMap :: "real Variable smap"
  d_parMap :: "real Parameter smap"
  d_getVar :: "nat \<Rightarrow> real Variable"
  d_amp :: Amplitude
  d_ps :: PhaseSpace
  d_norm :: real
  d_maxPdf :: real
  d_funcs :: "Function list"

subsection \<open>Evaluation\<close>

text \<open>
  \<open>evaluateFuncs\<close>: the map of values is declared before the loop, so an entry made for
  one function is still there for the next.
\<close>

definition evaluateFuncs_step ::
  "string \<Rightarrow> string \<Rightarrow> string \<Rightarrow> real \<Rightarrow> real \<Rightarrow> real \<Rightarrow>
   Function \<Rightarrow> real \<times> real smap \<Rightarrow> real \<times> real smap" where
  "evaluateFuncs_step name12 name13 name23 mSq12 mSq13 mSq23 func st =
     (let varMap0 = snd st;
          varMap1 = (if fn_dependsOn func name12 then smap_assign name12 mSq12 varMap0
                     else varMap0);
          varMap2 = (if fn_dependsOn func name13 then smap_assign name13 mSq13 varMap1
                     else varMap1);
          varMap3 = (if fn_dependsOn func name23 then smap_assign name23 mSq23 varMap2
                     else varMap2)
      in (fst st * fn_evaluate func varMap3, varMap3))"

definition evaluateFuncs :: "Decay3Body \<Rightarrow> real \<Rightarrow> real \<Rightarrow> real \<Rightarrow> real" where
  "evaluateFuncs d mSq12 mSq13 mSq23 =
     (let name12 = v_name (d_getVar d 0);
          name13 = v_name (d_getVar d 1);
          name23 = v_name (d_getVar d 2);
          val = fst (fold (evaluateFuncs_step name12 name13 name23 mSq12 mSq13 mSq23)
                       (d_funcs d) (1, []))
      in max val 0)"

text \<open>\<open>std::norm\<close> is the squared modulus.\<close>

definition std_norm :: "complex \<Rightarrow> real" where
  "std_norm z = (cmod z)\<^sup>2"

definition evaluate3 :: "Decay3Body \<Rightarrow> real \<Rightarrow> real \<Rightarrow> real \<Rightarrow> real" where
  "evaluate3 d mSq12 mSq13 mSq23 =
     (let amp = d_amp d (d_ps d) mSq12 mSq13 mSq23
      in std_norm amp * evaluateFuncs d mSq12 mSq13 mSq23 / d_norm d)"

definition evaluate2 :: "Decay3Body \<Rightarrow> real \<Rightarrow> real \<Rightarrow> real" where
  "evaluate2 d mSq12 mSq13 =
     (let mSq23 = ps_mSqSum (d_ps d) - mSq12 - mSq13;
          amp = d_amp d (d_ps d) mSq12 mSq13 mSq23
      in std_norm amp * evaluateFuncs d mSq12 mSq13 mSq23 / d_norm d)"

text \<open>The positional \<open>evaluate(vars)\<close>.\<close>

definition d_evaluate_vec :: "Decay3Body \<Rightarrow> real list \<Rightarrow> error + real" where
  "d_evaluate_vec d vars =
     (let size = length vars
      in if size = 2 then Inr (evaluate2 d (vars ! 0) (vars ! 1))
         else if size = 3 then Inr (evaluate3 d (vars ! 0) (vars ! 1) (vars ! 2))
         else Inl ArgumentCountMismatch)"

subsection \<open>Normalization\<close>

definition nBins :: nat where
  "nBins = 400"

text \<open>The body of the double loop of \<open>cache()\<close>, on the running value of \<open>_norm\<close>.\<close>

definition cache_cell :: "Decay3Body \<Rightarrow> nat \<Rightarrow> nat \<Rightarrow> real \<Rightarrow> real" where
  "cache_cell d binX binY norm_acc =
     (let min = ps_mSq12min (d_ps d);
          max = ps_mSq12max (d_ps d);
          step = (max - min) / real nBins;
          mSqSum = ps_mSqSum (d_ps d);
          mSq12 = min + step * (real binX + 0.5);
          mSq13 = min + step * (real binY + 0.5);
          mSq23 = mSqSum - mSq12 - mSq13
      in if ps_contains (d_ps d) mSq12 mSq13 mSq23
         then norm_acc + std_norm (d_amp d (d_ps d) mSq12 mSq13 mSq23)
                           * evaluateFuncs d mSq12 mSq13 mSq23
         else norm_acc)"

definition cache :: "Decay3Body \<Rightarrow> Decay3Body" where
  "cache d =
     (let min = ps_mSq12min (d_ps d);
          max = ps_mSq12max (d_ps d);
          step = (max - min) / real nBins;
          norm_acc = fold (\<lambda>binX. fold (cache_cell d binX) [0..<nBins]) [0..<nBins] 0
      in d\<lparr>d_norm := norm_acc * step\<^sup>2\<rparr>)"

text \<open>
  The grid integral as the specification words it, for comparison with \<open>cache\<close>: bin
  centres at \<open>min + step * (i + 0.5)\<close> on each axis with that axis's own bounds, the
  accepted centres contributing the squared amplitude times the auxiliary product, and
  the sum multiplied by the bin area.
\<close>

definition spec_cell :: "Decay3Body \<Rightarrow> nat \<Rightarrow> nat \<Rightarrow> real" where
  "spec_cell d i j =
     (let min12 = ps_mSqMin (d_ps d) 0;
          max12 = ps_mSqMax (d_ps d) 0;
          min13 = ps_mSqMin (d_ps d) 1;
          max13 = ps_mSqMax (d_ps d) 1;
          step12 = (max12 - min12) / real nBins;
          step13 = (max13 - min13) / real nBins;
          mSq12 = min12 + step12 * (real i + 0.5);
          mSq13 = min13 + step13 * (real j + 0.5);
          mSq23 = ps_mSqSum (d_ps d) - mSq12 - mSq13
      in if ps_contains (d_ps d) mSq12 mSq13 mSq23
         then std_norm (d_amp d (d_ps d) mSq12 mSq13 mSq23) * evaluateFuncs d mSq12 mSq13 mSq23
         else 0)"

definition spec_grid_integral :: "Decay3Body \<Rightarrow> real" where
  "spec_grid_integral d =
     (let step12 = (ps_mSqMax (d_ps d) 0 - ps_mSqMin (d_ps d) 0) / real nBins;
          step13 = (ps_mSqMax (d_ps d) 1 - ps_mSqMin (d_ps d) 1) / real nBins
      in (\<Sum>i\<leftarrow>[0..<nBins]. \<Sum>j\<leftarrow>[0..<nBins]. spec_cell d i j) * (step12 * step13))"

subsection \<open>Auxiliary factors\<close>

text \<open>
  The check that the function depends on declared variables only, common to
  \<open>operator*=\<close> and the two free \<open>operator*\<close>.
\<close>

definition depends_on_declared :: "Decay3Body \<Rightarrow> Function \<Rightarrow> bool" where
  "depends_on_declared d right =
     list_all (\<lambda>var. smap_count (v_name (snd var)) (d_varMap d)) (fn_varMap right)"

text \<open>\<open>operator*=\<close>: the exception, if any, and the density as it is left behind.\<close>

definition d_mult_assign :: "Function \<Rightarrow> Decay3Body \<Rightarrow> error option \<times> Decay3Body" where
  "d_mult_assign right d =
     (if \<not> depends_on_declared d right then (Some DependencyError, d)
      else (None, cache (d\<lparr>d_parMap := smap_insert_range (fn_parMap right) (d_parMap d),
                           d_funcs := d_funcs d @ [right]\<rparr>)))"

text \<open>
  The free \<open>operator*\<close>: it works on its own copy \<open>left\<close> and returns it. The overload that
  takes the function first has the same body.
\<close>

definition d_mult :: "Decay3Body \<Rightarrow> Function \<Rightarrow> error + Decay3Body" where
  "d_mult left right =
     (if \<not> depends_on_declared left right then Inl DependencyError
      else Inr (cache (left\<lparr>d_parMap := smap_insert_range (fn_parMap right) (d_parMap left),
                            d_funcs := d_funcs left @ [right]\<rparr>)))"

subsection \<open>Generation\<close>

text \<open>
  The loop \<open>while ( count-- )\<close> of \<open>generate()\<close>, on the attempts left, the map of values
  and the random source. The diagnostic printed when the density exceeds the envelope
  bound changes nothing and is left out.
\<close>

fun generate_loop :: "Decay3Body \<Rightarrow> nat \<Rightarrow> real smap \<Rightarrow> rng \<Rightarrow> real smap \<times> rng" where
  "generate_loop d 0 values rs =
     (let mSq12name = v_name (d_getVar d 0);
          mSq13name = v_name (d_getVar d 1);
          mSq23name = v_name (d_getVar d 2)
      in (smap_assign mSq23name 0 (smap_assign mSq13name 0 (smap_assign mSq12name 0 values)),
          rs))"
| "generate_loop d (Suc count) values rs =
     (let min12 = (ps_m1 (d_ps d) + ps_m2 (d_ps d))\<^sup>2;
          min13 = (ps_m1 (d_ps d) + ps_m3 (d_ps d))\<^sup>2;
          max12 = (ps_mMother (d_ps d) - ps_m3 (d_ps d))\<^sup>2;
          max13 = (ps_mMother (d_ps d) - ps_m2 (d_ps d))\<^sup>2;
          mSq12name = v_name (d_getVar d 0);
          mSq13name = v_name (d_getVar d 1);
          mSq23name = v_name (d_getVar d 2);
          mSqSum = ps_mSqMother (d_ps d) + ps_mSq1 (d_ps d) + ps_mSq2 (d_ps d)
                     + ps_mSq3 (d_ps d);
          (mSq12, rs1) = Random_flat min12 max12 rs;
          (mSq13, rs2) = Random_flat min13 max13 rs1;
          mSq23 = mSqSum - mSq12 - mSq13;
          values' = smap_assign mSq23name mSq23
                      (smap_assign mSq13name mSq13 (smap_assign mSq12name mSq12 values));
          pdfVal = evaluate3 d mSq12 mSq13 mSq23;
          (r, rs3) = Random_flat 0 (d_maxPdf d) rs2
      in if r < pdfVal then (values', rs3)
         else generate_loop d count values' rs3)"

definition generate :: "Decay3Body \<Rightarrow> rng \<Rightarrow> real smap \<times> rng" where
  "generate d rs = generate_loop d 10000 [] rs"

text \<open>
  What is asked of a generated point: it passes the containment test of the geometry, or
  it is the all-zero point.
\<close>

definition point_of :: "Decay3Body \<Rightarrow> real smap \<Rightarrow> (real option \<times> real option \<times> real option)" where
  "point_of d values =
     (smap_find (v_name (d_getVar d 0)) values,
      smap_find (v_name (d_getVar d 1)) values,
      smap_find (v_name (d_getVar d 2)) values)"

definition contained_or_zero :: "Decay3Body \<Rightarrow> real smap \<Rightarrow> bool" where
  "contained_or_zero d values =
     (case point_of d values of
        (Some mSq12, Some mSq13, Some mSq23) \<Rightarrow>
          ps_contains (d_ps d) mSq12 mSq13 mSq23 \<or> (mSq12 = 0 \<and> mSq13 = 0 \<and> mSq23 = 0)
      | _ \<Rightarrow> False)"

section \<open>Invariant and concrete programs\<close>

text \<open>
  The names a model declares are keys of the composite's maps.
\<close>

definition mdl_declared_in :: "'d PdfModel \<Rightarrow> 'd Pdf \<Rightarrow> bool" where
  "mdl_declared_in m p =
     (set (smap_keys (mdl_varMap m)) \<subseteq> set (smap_keys (pdf_varMap p)) \<and>
      set (smap_keys (mdl_parMap m)) \<subseteq> set (smap_keys (pdf_parMap p)))"

text \<open>
  The invariant of the composite: every handle points to a model, and every embedded model's
  declared names are keys of the composite's own maps.
\<close>

definition pdf_inv :: "'d store \<Rightarrow> 'd Pdf \<Rightarrow> bool" where
  "pdf_inv h p =
     list_all (\<lambda>a. case h a of None \<Rightarrow> False | Some m \<Rightarrow> mdl_declared_in m p) (pdf_pdfs p)"

text \<open>
  A variable map is keyed by name when each entry is filed under the name of its variable;
  likewise for parameter maps.
\<close>

definition keyed_by_name :: "'d Variable smap \<Rightarrow> bool" where
  "keyed_by_name m = list_all (\<lambda>kv. v_name (snd kv) = fst kv) m"

text \<open>
  The arithmetic of the reals, for concrete programs.
\<close>

definition real_arith :: "real arith" where
  "real_arith = \<lparr>fadd = (+), fsub = (-), fmul = (*), fdiv = (/), fpow = (powr),
     fneg = uminus, fexp = exp, flog = ln, fsin = sin, fcos = cos, ftan = tan\<rparr>"

text \<open>
  A density of one variable that always returns the same value.
\<close>

definition stub_model :: "string \<Rightarrow> real \<Rightarrow> real PdfModel" where
  "stub_model x c = \<lparr>
     mdl_varMap = [(x, \<lparr>v_name = x, v_value = 0, v_error = 0\<rparr>)],
     mdl_parMap = [],
     mdl_evaluate0 = Inr c,
     mdl_evaluate = (\<lambda>vars. if length vars = 1 then Inr c else Inl ArgumentCountMismatch)\<rparr>"

text \<open>
  Three stub densities: A(x) = 2 at address 0, B(y) = 3 at address 1, C(x) = 5 at address 2.
\<close>

definition stub_store :: "real store" where
  "stub_store a =
     (if a = 0 then Some (stub_model ''x'' 2)
      else if a = 1 then Some (stub_model ''y'' 3)
      else if a = 2 then Some (stub_model ''x'' 5)
      else None)"

text \<open>
  The composite A * B and the composite A + C, built through the public operators.
\<close>

definition product_AB :: "real Pdf" where
  "product_AB =
     snd (mult_assign_model 1 (stub_model ''y'' 3) (assign_model 0 (stub_model ''x'' 2) empty_Pdf))"

definition sum_AC :: "real Pdf" where
  "sum_AC =
     snd (plus_assign_model 2 (stub_model ''x'' 5) (assign_model 0 (stub_model ''x'' 2) empty_Pdf))"

definition par_keyed_by_name :: "'d Parameter smap \<Rightarrow> bool" where
  "par_keyed_by_name m = list_all (\<lambda>kv. p_name (snd kv) = fst kv) m"

definition models_keyed_by_name :: "'d store \<Rightarrow> 'd Pdf \<Rightarrow> bool" where
  "models_keyed_by_name h p =
     list_all (\<lambda>a. case h a of None \<Rightarrow> False
                  | Some m \<Rightarrow> keyed_by_name (mdl_varMap m) \<and> par_keyed_by_name (mdl_parMap m))
       (pdf_pdfs p)"

subsection \<open>Concrete densities\<close>

text \<open>
  A geometry for concrete densities: a point is contained when each of the three invariant
  masses squared lies within its own kinematic bounds.
\<close>

definition box_contains ::
  "real \<times> real \<Rightarrow> real \<times> real \<Rightarrow> real \<times> real \<Rightarrow> real \<Rightarrow> real \<Rightarrow> real \<Rightarrow> bool" where
  "box_contains b12 b13 b23 mSq12 mSq13 mSq23 =
     (fst b12 \<le> mSq12 \<and> mSq12 \<le> snd b12 \<and> fst b13 \<le> mSq13 \<and> mSq13 \<le> snd b13
      \<and> fst b23 \<le> mSq23 \<and> mSq23 \<le> snd b23)"

text \<open>
  The phase space of a mother of mass \<open>mMother\<close> and daughters of masses \<open>m1\<close>, \<open>m2\<close>, \<open>m3\<close>,
  with the bounds \<open>(mi + mj)\<^sup>2\<close> and \<open>(mMother - mk)\<^sup>2\<close> of each pair.
\<close>

definition box_PhaseSpace :: "real \<Rightarrow> real \<Rightarrow> real \<Rightarrow> real \<Rightarrow> PhaseSpace" where
  "box_PhaseSpace mMother m1 m2 m3 =
     (let b12 = ((m1 + m2)\<^sup>2, (mMother - m3)\<^sup>2);
          b13 = ((m1 + m3)\<^sup>2, (mMother - m2)\<^sup>2);
          b23 = ((m2 + m3)\<^sup>2, (mMother - m1)\<^sup>2)
      in \<lparr>ps_m1 = m1, ps_m2 = m2, ps_m3 = m3, ps_mMother = mMother,
           ps_mSq1 = m1\<^sup>2, ps_mSq2 = m2\<^sup>2, ps_mSq3 = m3\<^sup>2, ps_mSqMother = mMother\<^sup>2,
           ps_mSqSum = mMother\<^sup>2 + m1\<^sup>2 + m2\<^sup>2 + m3\<^sup>2,
           ps_mSq12min = fst b12, ps_mSq12max = snd b12,
           ps_mSqMin = (\<lambda>i. if i = 0 then fst b12 else if i = 1 then fst b13 else fst b23),
           ps_mSqMax = (\<lambda>i. if i = 0 then snd b12 else if i = 1 then snd b13 else snd b23),
           ps_contains = box_contains b12 b13 b23\<rparr>)"

definition mass_var :: "string \<Rightarrow> real Variable" where
  "mass_var x = \<lparr>v_name = x, v_value = 0, v_error = 0\<rparr>"

text \<open>
  A density of constant amplitude 1 with one parameter and no auxiliary factor, as the
  constructor leaves it before its call of \<open>cache()\<close>.
\<close>

definition flat_density :: "PhaseSpace \<Rightarrow> Decay3Body" where
  "flat_density ps = \<lparr>
     d_varMap = [(''mSq12'', mass_var ''mSq12''), (''mSq13'', mass_var ''mSq13''),
                 (''mSq23'', mass_var ''mSq23'')],
     d_parMap = [(''a'', \<lparr>p_name = ''a'', p_value = 1, p_error = 0\<rparr>)],
     d_getVar = (\<lambda>i. if i = 0 then mass_var ''mSq12'' else if i = 1 then mass_var ''mSq13''
                      else mass_var ''mSq23''),
     d_amp = (\<lambda>ps mSq12 mSq13 mSq23. 1),
     d_ps = ps,
     d_norm = 1,
     d_maxPdf = 14,
     d_funcs = []\<rparr>"

text \<open>
  Daughters of different masses: \<open>mSq12\<close> ranges over \<open>[0, 1]\<close>, \<open>mSq13\<close> over \<open>[1, 4]\<close>.
\<close>

definition skew_density :: Decay3Body where
  "skew_density = flat_density (box_PhaseSpace 2 0 0 1)"

text \<open>
  Two daughters of equal mass: \<open>mSq12\<close> and \<open>mSq13\<close> both range over \<open>[1, 4]\<close>, and
  \<open>mSq23 = 11 - mSq12 - mSq13\<close> over \<open>[4, 9]\<close>. The density is normalized.
\<close>

definition even_density :: Decay3Body where
  "even_density = cache (flat_density (box_PhaseSpace 3 0 1 1))"

text \<open>
  A random source whose draws are 7/8, except the third, which is 0.
\<close>

definition late_draws :: rng where
  "late_draws n = (if n = 2 then 0 else 7 / 8)"

text \<open>
  The candidate point and the acceptance draw of attempt \<open>k\<close> of \<open>generate()\<close>: each
  attempt consumes three draws of the source.
\<close>

definition attempt :: "Decay3Body \<Rightarrow> rng \<Rightarrow> nat \<Rightarrow> real \<times> real \<times> real \<times> real" where
  "attempt d rs k =
     (let min12 = (ps_m1 (d_ps d) + ps_m2 (d_ps d))\<^sup>2;
          min13 = (ps_m1 (d_ps d) + ps_m3 (d_ps d))\<^sup>2;
          max12 = (ps_mMother (d_ps d) - ps_m3 (d_ps d))\<^sup>2;
          max13 = (ps_mMother (d_ps d) - ps_m2 (d_ps d))\<^sup>2;
          mSqSum = ps_mSqMother (d_ps d) + ps_mSq1 (d_ps d) + ps_mSq2 (d_ps d)
                     + ps_mSq3 (d_ps d);
          mSq12 = min12 + (max12 - min12) * rs (3 * k);
          mSq13 = min13 + (max13 - min13) * rs (Suc (3 * k));
          mSq23 = mSqSum - mSq12 - mSq13;
          r = d_maxPdf d * rs (Suc (Suc (3 * k)))
      in (mSq12, mSq13, mSq23, r))"

definition accepted :: "Decay3Body \<Rightarrow> rng \<Rightarrow> nat \<Rightarrow> bool" where
  "accepted d rs k =
     (case attempt d rs k of (mSq12, mSq13, mSq23, r) \<Rightarrow> r < evaluate3 d mSq12 mSq13 mSq23)"

definition candidate_point ::
  "Decay3Body \<Rightarrow> rng \<Rightarrow> nat \<Rightarrow> real option \<times> real option \<times> real option" where
  "candidate_point d rs k =
     (case attempt d rs k of (mSq12, mSq13, mSq23, r) \<Rightarrow> (Some mSq12, Some mSq13, Some mSq23))"

text \<open>
  An auxiliary function of one variable \<open>x\<close> with one parameter \<open>a\<close>, constantly 1.
\<close>

definition aux_function :: "string \<Rightarrow> real \<Rightarrow> Function" where
  "aux_function x c = \<lparr>
     fn_varMap = [(x, mass_var x)],
     fn_parMap = [(''a'', \<lparr>p_name = ''a'', p_value = c, p_error = 0\<rparr>)],
     fn_dependsOn = (\<lambda>n. n = x),
     fn_evaluate = (\<lambda>vars. 1)\<rparr>"

text \<open>
  The random source after one attempt.
\<close>

definition shift3 :: "rng \<Rightarrow> rng" where
  "shift3 rs = (\<lambda>n. rs (Suc (Suc (Suc n))))"

text \<open>
  A density whose amplitude vanishes outside the allowed region.
\<close>

definition gated_density :: Decay3Body where
  "gated_density = (flat_density (box_PhaseSpace 3 0 1 1))
     \<lparr>d_amp := (\<lambda>ps mSq12 mSq13 mSq23. if ps_contains ps mSq12 mSq13 mSq23 then 1 else 0)\<rparr>"

section \<open>Properties of the expression composer\<close>

subsection \<open>Keys of the maps\<close>

lemma keys_smap_insert:
  "set (smap_keys (smap_insert kv m)) = insert (fst kv) (set (smap_keys m))"
  by (auto simp: smap_insert_def smap_count_def smap_keys_def set_insort_key)

lemma smap_keys_simps:
  "smap_keys [] = []" "smap_keys (kv # m) = fst kv # smap_keys m"
  by (simp_all add: smap_keys_def)

lemma keys_smap_insert_range:
  "set (smap_keys (smap_insert_range src m)) = set (smap_keys src) \<union> set (smap_keys m)"
  unfolding smap_insert_range_def
proof (induction src arbitrary: m)
  case Nil
  show ?case by (simp add: smap_keys_simps)
next
  case (Cons kv src)
  have "set (smap_keys (fold smap_insert src (smap_insert kv m)))
          = set (smap_keys src) \<union> set (smap_keys (smap_insert kv m))"
    by (rule Cons.IH)
  then show ?case by (simp add: keys_smap_insert smap_keys_simps)
qed

lemma keys_smap_assign:
  "set (smap_keys (smap_assign k v m)) = insert k (set (smap_keys m))"
proof (cases "smap_count k m")
  case True
  have "map fst (map (\<lambda>kv. if fst kv = k then (k, v) else kv) m) = map fst m"
    by (induction m) auto
  with True show ?thesis
    by (auto simp: smap_assign_def smap_count_def smap_keys_def)
next
  case False
  then show ?thesis
    by (simp add: smap_assign_def smap_keys_def set_insort_key)
qed

lemma keys_fold_smap_assign:
  "set (smap_keys (fold (\<lambda>par. smap_assign (p_name par) par) ps m))
     = p_name ` set ps \<union> set (smap_keys m)"
  by (induction ps arbitrary: m) (auto simp: keys_smap_assign)

lemma sorted_smap_insert: "smap_sorted m \<Longrightarrow> smap_sorted (smap_insert kv m)"
  by (auto simp: smap_sorted_def smap_insert_def smap_count_def smap_keys_def
        strict_sorted_iff sorted_insort_key distinct_insort_key)

lemma sorted_smap_insert_range: "smap_sorted m \<Longrightarrow> smap_sorted (smap_insert_range src m)"
  unfolding smap_insert_range_def
  by (induction src arbitrary: m) (auto simp: sorted_smap_insert)

subsection \<open>Intersection of sorted name vectors\<close>

lemma set_set_intersection:
  "sorted xs \<Longrightarrow> sorted ys \<Longrightarrow> set (set_intersection xs ys) = set xs \<inter> set ys"
  by (induction xs ys rule: set_intersection.induct) auto

lemma set_intersection_empty_iff:
  assumes "sorted xs" "sorted ys"
  shows "set_intersection xs ys = [] \<longleftrightarrow> set xs \<inter> set ys = {}"
proof -
  have "set_intersection xs ys = [] \<longleftrightarrow> set (set_intersection xs ys) = {}" by simp
  also have "\<dots> \<longleftrightarrow> set xs \<inter> set ys = {}" using assms by (simp add: set_set_intersection)
  finally show ?thesis .
qed

lemma smap_sorted_keys: "smap_sorted m \<Longrightarrow> sorted (smap_keys m)"
  by (simp add: smap_sorted_def strict_sorted_iff)

subsection \<open>Preservation of the invariant, operation by operation\<close>

lemma mdl_declared_in_mono:
  assumes "set (smap_keys (pdf_varMap p)) \<subseteq> set (smap_keys (pdf_varMap p'))"
      and "set (smap_keys (pdf_parMap p)) \<subseteq> set (smap_keys (pdf_parMap p'))"
      and "mdl_declared_in m p"
  shows "mdl_declared_in m p'"
  using assms unfolding mdl_declared_in_def by blast

lemma pdf_inv_iff:
  "pdf_inv h p \<longleftrightarrow> (\<forall>a\<in>set (pdf_pdfs p). \<exists>m. h a = Some m \<and> mdl_declared_in m p)"
  by (auto simp: pdf_inv_def list_all_iff split: option.splits)

lemma pdf_inv_grow:
  assumes "pdf_inv h p"
      and "pdf_pdfs p' = pdf_pdfs p"
      and "set (smap_keys (pdf_varMap p)) \<subseteq> set (smap_keys (pdf_varMap p'))"
      and "set (smap_keys (pdf_parMap p)) \<subseteq> set (smap_keys (pdf_parMap p'))"
  shows "pdf_inv h p'"
  using assms unfolding pdf_inv_iff by (metis mdl_declared_in_mono)

lemma inv_append_model:
  assumes "pdf_inv h p" "h a = Some m"
  shows "pdf_inv h (append_model a m p)"
proof -
  let ?p' = "append_model a m p"
  have v: "set (smap_keys (pdf_varMap ?p')) = set (smap_keys (mdl_varMap m)) \<union> set (smap_keys (pdf_varMap p))"
    by (simp add: append_model_def keys_smap_insert_range)
  have q: "set (smap_keys (pdf_parMap ?p')) = set (smap_keys (mdl_parMap m)) \<union> set (smap_keys (pdf_parMap p))"
    by (simp add: append_model_def keys_smap_insert_range)
  have pdfs: "pdf_pdfs ?p' = pdf_pdfs p @ [a]" by (simp add: append_model_def)
  have new: "mdl_declared_in m ?p'" unfolding mdl_declared_in_def v q by blast
  have old: "\<And>b m'. b \<in> set (pdf_pdfs p) \<Longrightarrow> \<exists>m'. h b = Some m' \<and> mdl_declared_in m' ?p'"
  proof -
    fix b assume "b \<in> set (pdf_pdfs p)"
    then obtain m' where m': "h b = Some m'" "mdl_declared_in m' p"
      using assms(1) unfolding pdf_inv_iff by blast
    have "mdl_declared_in m' ?p'"
      by (rule mdl_declared_in_mono[OF _ _ m'(2)]) (auto simp: v q)
    with m' show "\<exists>m'. h b = Some m' \<and> mdl_declared_in m' ?p'" by blast
  qed
  show ?thesis unfolding pdf_inv_iff pdfs using new old assms(2) by auto
qed

lemma inv_append_pdf:
  assumes "pdf_inv h p" "pdf_inv h q"
  shows "pdf_inv h (append_pdf q p)"
proof -
  let ?p' = "append_pdf q p"
  have v: "set (smap_keys (pdf_varMap ?p')) = set (smap_keys (pdf_varMap q)) \<union> set (smap_keys (pdf_varMap p))"
    by (simp add: append_pdf_def keys_smap_insert_range)
  have w: "set (smap_keys (pdf_parMap ?p')) = set (smap_keys (pdf_parMap q)) \<union> set (smap_keys (pdf_parMap p))"
    by (simp add: append_pdf_def keys_smap_insert_range)
  have pdfs: "pdf_pdfs ?p' = pdf_pdfs p @ pdf_pdfs q" by (simp add: append_pdf_def)
  have "\<exists>m'. h b = Some m' \<and> mdl_declared_in m' ?p'" if "b \<in> set (pdf_pdfs p) \<union> set (pdf_pdfs q)" for b
  proof -
    from that obtain m' r where m': "h b = Some m'" "mdl_declared_in m' r" "r = p \<or> r = q"
      using assms unfolding pdf_inv_iff by blast
    have "mdl_declared_in m' ?p'"
      by (rule mdl_declared_in_mono[OF _ _ m'(2)]) (use m'(3) in \<open>auto simp: v w\<close>)
    with m' show ?thesis by blast
  qed
  then show ?thesis unfolding pdf_inv_iff pdfs by simp
qed

lemma inv_append_par: "pdf_inv h p \<Longrightarrow> pdf_inv h (append_par par p)"
  by (erule pdf_inv_grow) (auto simp: append_par_def keys_smap_assign)

lemma inv_append_expr: "pdf_inv h p \<Longrightarrow> pdf_inv h (append_expr e p)"
  by (erule pdf_inv_grow) (auto simp: append_expr_def keys_fold_smap_assign)

lemma inv_append_ctnt: "pdf_inv h p \<Longrightarrow> pdf_inv h (append_ctnt c p)"
  by (erule pdf_inv_grow) (auto simp: append_ctnt_def)

lemma inv_append_oper: "pdf_inv h p \<Longrightarrow> pdf_inv h (append_oper oper p)"
  by (erule pdf_inv_grow) (auto simp: append_oper_def)

subsection \<open>Concrete programs\<close>

lemmas composer_defs =
  mult_assign_model_def plus_assign_model_def mult_assign_pdf_def plus_assign_pdf_def
  assign_model_def append_model_def append_pdf_def append_oper_def append_ctnt_def
  append_par_def empty_Pdf_def
  pdf_varNames_def mdl_varNames_def smap_insert_range_def smap_insert_def smap_count_def
  smap_keys_def smap_assign_def smap_find_def

lemma product_AB_eq:
  "product_AB = \<lparr>pdf_varMap = [(''x'', \<lparr>v_name = ''x'', v_value = 0, v_error = 0\<rparr>),
                                 (''y'', \<lparr>v_name = ''y'', v_value = 0, v_error = 0\<rparr>)],
     pdf_parMap = [], pdf_pdfs = [0, 1], pdf_pars = [], pdf_ctnts = [], pdf_opers = [Op_mult],
     pdf_expression = ''mmb''\<rparr>"
  by (simp add: product_AB_def stub_model_def composer_defs)

lemma sum_AC_eq:
  "sum_AC = \<lparr>pdf_varMap = [(''x'', \<lparr>v_name = ''x'', v_value = 0, v_error = 0\<rparr>)],
     pdf_parMap = [], pdf_pdfs = [0, 2], pdf_pars = [], pdf_ctnts = [], pdf_opers = [Op_plus],
     pdf_expression = ''mmb''\<rparr>"
  by (simp add: sum_AC_def stub_model_def composer_defs)

text \<open>
  Claim C1. \<open>commonVars()\<close> is to replay the program over sets of variable names, a
  sum-operator intersecting and a product-operator uniting the two top sets, so that the
  product of two models over disjoint variables yields the union and the sum of two models
  over the same variables yields the shared set. On the composites that the public operators
  build, every binary operator is the token \<open>b\<close>, which \<open>commonVars()\<close> tells apart from
  neither \<open>+\<close> nor \<open>*\<close>: for the product A * B and for the sum A + C the function returns
  the empty list. Moreover the second model leaf pushes the names of both models, since the
  vector of names is never cleared.
\<close>

theorem commonVars_composed_is_empty:
  "fst (mult_assign_model 1 (stub_model ''y'' 3) (assign_model 0 (stub_model ''x'' 2) empty_Pdf)) = None
   \<and> pdf_expression product_AB = ''mmb''
   \<and> commonVars stub_store product_AB = Inr []
   \<and> fst (plus_assign_model 2 (stub_model ''x'' 5) (assign_model 0 (stub_model ''x'' 2) empty_Pdf)) = None
   \<and> pdf_expression sum_AC = ''mmb''
   \<and> commonVars stub_store sum_AC = Inr []
   \<and> cv_loop stub_store ''mm'' \<lparr>cv_calcs = [], cv_models = [0, 1], cv_varNames = []\<rparr>
       = Inr \<lparr>cv_calcs = [[''x'', ''y''], [''x'']], cv_models = [],
              cv_varNames = [''x'', ''y'']\<rparr>"
  by (simp add: product_AB_eq sum_AC_eq commonVars_def cv_step_def stub_store_def
        stub_model_def composer_defs Let_def)

lemma evaluate_product: "evaluate real_arith stub_store product_AB = Inr 6"
  by (simp add: product_AB_eq evaluate_def run_program_def eval_step_def operate2_def
      stub_store_def stub_model_def real_arith_def)

subsection \<open>Division\<close>

text \<open>
  Claim C9. The division of the evaluator is unguarded: \<open>operate\<close> returns the quotient of
  its operands whatever the divisor is, and evaluating the program \<open>x / y\<close> of two constants
  returns that quotient and no error, for every arithmetic and every \<open>y\<close>, zero included.
\<close>

theorem division_is_unguarded:
  "operate2 F x y Op_div = Inr (fdiv F x y)
   \<and> evaluate F h (div_assign_ctnt y (append_ctnt x empty_Pdf)) = Inr (fdiv F x y)
   \<and> evaluate real_arith h' (div_assign_ctnt 0 (append_ctnt 1 empty_Pdf)) = Inr (fdiv real_arith 1 0)"
  by (simp add: operate2_def evaluate_def run_program_def eval_step_def div_assign_ctnt_def
        append_ctnt_def append_oper_def empty_Pdf_def)

subsection \<open>Legality of composition\<close>

text \<open>
  Claim C6. Sum composition with a model or with a sub-expression succeeds exactly when the
  sorted variable-name lists of the two operands are equal; it then appends the operand and
  the operator. Otherwise it fails with \<open>IncompatibleVariablesError\<close> and the composite is
  left as it was.
\<close>

theorem sum_composition_legality:
  "(fst (plus_assign_model a m p) = None \<longleftrightarrow> pdf_varNames p = mdl_varNames m)
   \<and> (pdf_varNames p = mdl_varNames m \<longrightarrow>
        plus_assign_model a m p = (None, append_oper Op_plus (append_model a m p)))
   \<and> (pdf_varNames p \<noteq> mdl_varNames m \<longrightarrow>
        plus_assign_model a m p = (Some IncompatibleVariablesError, p))
   \<and> (fst (plus_assign_pdf q p) = None \<longleftrightarrow> pdf_varNames p = pdf_varNames q)
   \<and> (pdf_varNames p = pdf_varNames q \<longrightarrow>
        plus_assign_pdf q p = (None, append_oper Op_plus (append_pdf q p)))
   \<and> (pdf_varNames p \<noteq> pdf_varNames q \<longrightarrow>
        plus_assign_pdf q p = (Some IncompatibleVariablesError, p))"
  by (simp add: plus_assign_model_def plus_assign_pdf_def)

theorem sum_composition_legality_witness:
  "plus_assign_model 2 (stub_model ''x'' 5) (assign_model 0 (stub_model ''x'' 2) empty_Pdf)
     = (None, append_oper Op_plus (append_model 2 (stub_model ''x'' 5)
                 (assign_model 0 (stub_model ''x'' 2) empty_Pdf)))
   \<and> plus_assign_model 1 (stub_model ''y'' 3) (assign_model 0 (stub_model ''x'' 2) empty_Pdf)
     = (Some IncompatibleVariablesError, assign_model 0 (stub_model ''x'' 2) empty_Pdf)
   \<and> plus_assign_pdf product_AB (assign_model 0 (stub_model ''x'' 2) empty_Pdf)
     = (Some IncompatibleVariablesError, assign_model 0 (stub_model ''x'' 2) empty_Pdf)
   \<and> fst (plus_assign_pdf sum_AC (assign_model 0 (stub_model ''x'' 2) empty_Pdf)) = None"
proof -
  let ?p = "assign_model 0 (stub_model ''x'' 2) empty_Pdf :: real Pdf"
  have e1: "pdf_varNames ?p = mdl_varNames (stub_model ''x'' 5)"
    by (simp add: stub_model_def composer_defs)
  have e2: "pdf_varNames ?p \<noteq> mdl_varNames (stub_model ''y'' 3)"
    by (simp add: stub_model_def composer_defs)
  have e3: "pdf_varNames ?p \<noteq> pdf_varNames product_AB"
    by (simp add: product_AB_eq stub_model_def composer_defs)
  have e4: "pdf_varNames ?p = pdf_varNames sum_AC"
    by (simp add: sum_AC_eq stub_model_def composer_defs)
  show ?thesis
    using sum_composition_legality[of 2 "stub_model ''x'' 5" ?p sum_AC]
          sum_composition_legality[of 1 "stub_model ''y'' 3" ?p product_AB]
          e1 e2 e3 e4 by simp
qed

text \<open>
  Claim C7. Product composition with a model or with a sub-expression succeeds exactly when
  the variable-name sets of the two operands are disjoint; it then appends the operand and
  the operator. Otherwise it fails with \<open>OverlappingVariablesError\<close> and the composite is
  left as it was. The variable maps are \<open>std::map\<close>s, hence in key order.
\<close>

theorem product_composition_legality:
  assumes "smap_sorted (pdf_varMap p)" "smap_sorted (mdl_varMap m)" "smap_sorted (pdf_varMap q)"
  shows "(fst (mult_assign_model a m p) = None
            \<longleftrightarrow> set (pdf_varNames p) \<inter> set (mdl_varNames m) = {})
   \<and> (set (pdf_varNames p) \<inter> set (mdl_varNames m) = {} \<longrightarrow>
        mult_assign_model a m p = (None, append_oper Op_mult (append_model a m p)))
   \<and> (set (pdf_varNames p) \<inter> set (mdl_varNames m) \<noteq> {} \<longrightarrow>
        mult_assign_model a m p = (Some OverlappingVariablesError, p))
   \<and> (fst (mult_assign_pdf q p) = None
            \<longleftrightarrow> set (pdf_varNames p) \<inter> set (pdf_varNames q) = {})
   \<and> (set (pdf_varNames p) \<inter> set (pdf_varNames q) = {} \<longrightarrow>
        mult_assign_pdf q p = (None, append_oper Op_mult (append_pdf q p)))
   \<and> (set (pdf_varNames p) \<inter> set (pdf_varNames q) \<noteq> {} \<longrightarrow>
        mult_assign_pdf q p = (Some OverlappingVariablesError, p))"
proof -
  have sp: "sorted (pdf_varNames p)" and sm: "sorted (mdl_varNames m)"
    and sq: "sorted (pdf_varNames q)"
    using assms by (simp_all add: pdf_varNames_def mdl_varNames_def smap_sorted_keys)
  have m: "set_intersection (pdf_varNames p) (mdl_varNames m) = []
             \<longleftrightarrow> set (pdf_varNames p) \<inter> set (mdl_varNames m) = {}"
    by (rule set_intersection_empty_iff[OF sp sm])
  have q: "set_intersection (pdf_varNames p) (pdf_varNames q) = []
             \<longleftrightarrow> set (pdf_varNames p) \<inter> set (pdf_varNames q) = {}"
    by (rule set_intersection_empty_iff[OF sp sq])
  show ?thesis
    unfolding mult_assign_model_def mult_assign_pdf_def Let_def
    using m q by simp
qed

theorem product_composition_legality_witness:
  "smap_sorted (pdf_varMap (assign_model 0 (stub_model ''x'' 2) empty_Pdf))
   \<and> smap_sorted (mdl_varMap (stub_model ''y'' 3))
   \<and> smap_sorted (pdf_varMap product_AB)
   \<and> fst (mult_assign_model 1 (stub_model ''y'' 3) (assign_model 0 (stub_model ''x'' 2) empty_Pdf)) = None
   \<and> mult_assign_model 2 (stub_model ''x'' 5) (assign_model 0 (stub_model ''x'' 2) empty_Pdf)
       = (Some OverlappingVariablesError, assign_model 0 (stub_model ''x'' 2) empty_Pdf)
   \<and> mult_assign_pdf product_AB (assign_model 0 (stub_model ''x'' 2) empty_Pdf)
       = (Some OverlappingVariablesError, assign_model 0 (stub_model ''x'' 2) empty_Pdf)"
proof -
  let ?p = "assign_model 0 (stub_model ''x'' 2) empty_Pdf :: real Pdf"
  have s1: "smap_sorted (pdf_varMap ?p)"
    by (simp add: smap_sorted_def stub_model_def composer_defs)
  have s2: "smap_sorted (mdl_varMap (stub_model ''y'' 3))"
    and s2': "smap_sorted (mdl_varMap (stub_model ''x'' 5))"
    by (simp_all add: smap_sorted_def stub_model_def composer_defs)
  have s3: "smap_sorted (pdf_varMap product_AB)"
    by (simp add: product_AB_eq smap_sorted_def smap_keys_def)
  have d1: "set (pdf_varNames ?p) \<inter> set (mdl_varNames (stub_model ''y'' 3)) = {}"
    by (simp add: stub_model_def composer_defs)
  have d2: "set (pdf_varNames ?p) \<inter> set (mdl_varNames (stub_model ''x'' 5)) \<noteq> {}"
    by (simp add: stub_model_def composer_defs)
  have d3: "set (pdf_varNames ?p) \<inter> set (pdf_varNames product_AB) \<noteq> {}"
    by (simp add: product_AB_eq stub_model_def composer_defs)
  show ?thesis
    using product_composition_legality[OF s1 s2 s3, of 1]
          product_composition_legality[OF s1 s2' s3, of 2]
          s1 s2 s3 d1 d2 d3 by simp
qed

subsection \<open>The invariant and the lookups it makes total\<close>

lemma inv_empty_Pdf: "pdf_inv h empty_Pdf"
  by (simp add: pdf_inv_def empty_Pdf_def)

lemma smap_find_Some_iff: "(\<exists>v. smap_find k m = Some v) \<longleftrightarrow> smap_count k m"
proof -
  have "(\<exists>v. map_of m k = Some v) \<longleftrightarrow> map_of m k \<noteq> None" by simp
  also have "\<dots> \<longleftrightarrow> k \<in> fst ` set m" by (simp only: map_of_eq_None_iff not_not)
  finally show ?thesis by (simp add: smap_find_def smap_count_def smap_keys_def)
qed

lemma keys_fold_assign_pairs:
  "set (smap_keys (fold (\<lambda>kx. smap_assign (fst kx) (snd kx)) kxs m))
     = fst ` set kxs \<union> set (smap_keys m)"
  by (induction kxs arbitrary: m) (auto simp: keys_smap_assign)

lemma keys_localVars_of:
  "length vars = length varMap \<Longrightarrow>
   set (smap_keys (localVars_of varMap vars)) = set (smap_keys varMap)"
proof -
  assume len: "length vars = length varMap"
  have "fst ` set (zip (smap_keys varMap) vars) = set (map fst (zip (smap_keys varMap) vars))"
    by simp
  also have "\<dots> = set (smap_keys varMap)"
    using len by (simp only: map_fst_zip smap_keys_def length_map)
  finally show ?thesis
    by (simp add: localVars_of_def keys_fold_assign_pairs smap_keys_simps)
qed

lemma modelVars_of_total:
  "(\<forall>var\<in>set pdfVars. smap_count (v_name (snd var)) localVars) \<Longrightarrow>
   \<exists>xs. modelVars_of localVars pdfVars = Inr xs"
proof (induction pdfVars)
  case Nil
  show ?case by simp
next
  case (Cons var pdfVars)
  from Cons.prems obtain x where x: "smap_find (v_name (snd var)) localVars = Some x"
    using smap_find_Some_iff[of "v_name (snd var)" localVars] by auto
  from Cons obtain xs where "modelVars_of localVars pdfVars = Inr xs" by auto
  with x show ?case by simp
qed

lemma keyed_names_are_keys:
  "keyed_by_name m \<Longrightarrow> var \<in> set m \<Longrightarrow> v_name (snd var) \<in> set (smap_keys m)"
  by (auto simp: keyed_by_name_def list_all_iff smap_keys_def)

lemma par_keyed_names_are_keys:
  "par_keyed_by_name m \<Longrightarrow> par \<in> set m \<Longrightarrow> p_name (snd par) \<in> set (smap_keys m)"
  by (auto simp: par_keyed_by_name_def list_all_iff smap_keys_def)

lemma inv_lookups_total:
  assumes inv: "pdf_inv h p" and kn: "models_keyed_by_name h p"
      and a: "a \<in> set (pdf_pdfs p)"
  shows "\<exists>m. h a = Some m
           \<and> (\<forall>var\<in>set (mdl_varMap m). smap_count (v_name (snd var)) (pdf_varMap p))
           \<and> (\<forall>par\<in>set (mdl_parMap m). smap_count (p_name (snd par)) (pdf_parMap p))
           \<and> (\<forall>vars. length vars = length (pdf_varMap p) \<longrightarrow>
                 (\<exists>xs. modelVars_of (localVars_of (pdf_varMap p) vars) (mdl_varMap m) = Inr xs))"
proof -
  from inv a obtain m where m: "h a = Some m" "mdl_declared_in m p"
    unfolding pdf_inv_iff by blast
  from kn a m(1) have k: "keyed_by_name (mdl_varMap m)" "par_keyed_by_name (mdl_parMap m)"
    by (auto simp: models_keyed_by_name_def list_all_iff)
  have v: "\<forall>var\<in>set (mdl_varMap m). smap_count (v_name (snd var)) (pdf_varMap p)"
    using keyed_names_are_keys[OF k(1)] m(2)
    by (auto simp: smap_count_def mdl_declared_in_def)
  have q: "\<forall>par\<in>set (mdl_parMap m). smap_count (p_name (snd par)) (pdf_parMap p)"
    using par_keyed_names_are_keys[OF k(2)] m(2)
    by (auto simp: smap_count_def mdl_declared_in_def)
  have t: "\<exists>xs. modelVars_of (localVars_of (pdf_varMap p) vars) (mdl_varMap m) = Inr xs"
    if "length vars = length (pdf_varMap p)" for vars
  proof (rule modelVars_of_total)
    show "\<forall>var\<in>set (mdl_varMap m).
            smap_count (v_name (snd var)) (localVars_of (pdf_varMap p) vars)"
      using v keys_localVars_of[OF that] by (simp add: smap_count_def)
  qed
  from m(1) v q t show ?thesis by blast
qed

text \<open>
  Claim C10. Every append and every compound assignment of the composer preserves the
  invariant that the names declared by each embedded model are keys of the composite's own
  variable and parameter maps. Under the invariant, and with the models' maps keyed by
  name, every name looked up during vectorized evaluation and during value broadcast is
  found.
\<close>

theorem composer_preserves_declared_names:
  assumes "pdf_inv h p" and "h a = Some m" and "pdf_inv h q"
  shows "pdf_inv h (append_model a m p) \<and> pdf_inv h (append_pdf q p)
       \<and> pdf_inv h (append_par par p) \<and> pdf_inv h (append_expr e p)
       \<and> pdf_inv h (append_ctnt c p) \<and> pdf_inv h (append_oper oper p)
       \<and> pdf_inv h (assign_model a m p)
       \<and> pdf_inv h (snd (plus_assign_model a m p)) \<and> pdf_inv h (snd (mult_assign_model a m p))
       \<and> pdf_inv h (snd (plus_assign_pdf q p)) \<and> pdf_inv h (snd (mult_assign_pdf q p))
       \<and> pdf_inv h (mult_assign_par par p) \<and> pdf_inv h (div_assign_par par p)
       \<and> pdf_inv h (mult_assign_expr e p) \<and> pdf_inv h (div_assign_expr e p)
       \<and> pdf_inv h (mult_assign_ctnt c p) \<and> pdf_inv h (div_assign_ctnt c p)
       \<and> (models_keyed_by_name h p \<longrightarrow>
            (\<forall>b\<in>set (pdf_pdfs p). \<exists>m'. h b = Some m'
               \<and> (\<forall>var\<in>set (mdl_varMap m'). smap_count (v_name (snd var)) (pdf_varMap p))
               \<and> (\<forall>par\<in>set (mdl_parMap m'). smap_count (p_name (snd par)) (pdf_parMap p))
               \<and> (\<forall>vars. length vars = length (pdf_varMap p) \<longrightarrow>
                     (\<exists>xs. modelVars_of (localVars_of (pdf_varMap p) vars) (mdl_varMap m')
                             = Inr xs))))"
proof -
  note am = inv_append_model[OF assms(1,2)]
  note ap = inv_append_pdf[OF assms(1,3)]
  have 1: "pdf_inv h (snd (plus_assign_model a m p))"
    using assms(1) am by (simp add: plus_assign_model_def inv_append_oper)
  have 2: "pdf_inv h (snd (mult_assign_model a m p))"
    using assms(1) am by (simp add: mult_assign_model_def Let_def inv_append_oper)
  have 3: "pdf_inv h (snd (plus_assign_pdf q p))"
    using assms(1) ap by (simp add: plus_assign_pdf_def inv_append_oper)
  have 4: "pdf_inv h (snd (mult_assign_pdf q p))"
    using assms(1) ap by (simp add: mult_assign_pdf_def Let_def inv_append_oper)
  have 5: "pdf_inv h (mult_assign_par par p)" "pdf_inv h (div_assign_par par p)"
    "pdf_inv h (mult_assign_expr e p)" "pdf_inv h (div_assign_expr e p)"
    "pdf_inv h (mult_assign_ctnt c p)" "pdf_inv h (div_assign_ctnt c p)"
    using assms(1)
    by (simp_all add: mult_assign_par_def div_assign_par_def mult_assign_expr_def
          div_assign_expr_def mult_assign_ctnt_def div_assign_ctnt_def
          inv_append_oper inv_append_par inv_append_expr inv_append_ctnt)
  have 6: "pdf_inv h (append_par par p)" "pdf_inv h (append_expr e p)"
    "pdf_inv h (append_ctnt c p)" "pdf_inv h (append_oper oper p)"
    using assms(1)
    by (simp_all add: inv_append_oper inv_append_par inv_append_expr inv_append_ctnt)
  have 7: "pdf_inv h (assign_model a m p)"
    using am by (simp add: assign_model_def)
  have 8: "models_keyed_by_name h p \<longrightarrow>
            (\<forall>b\<in>set (pdf_pdfs p). \<exists>m'. h b = Some m'
               \<and> (\<forall>var\<in>set (mdl_varMap m'). smap_count (v_name (snd var)) (pdf_varMap p))
               \<and> (\<forall>par\<in>set (mdl_parMap m'). smap_count (p_name (snd par)) (pdf_parMap p))
               \<and> (\<forall>vars. length vars = length (pdf_varMap p) \<longrightarrow>
                     (\<exists>xs. modelVars_of (localVars_of (pdf_varMap p) vars) (mdl_varMap m')
                             = Inr xs)))"
    using inv_lookups_total[OF assms(1)] by blast
  from am ap 1 2 3 4 5 6 7 8 show ?thesis by blast
qed

lemma inv_product_AB: "pdf_inv stub_store product_AB"
  by (simp add: product_AB_eq pdf_inv_def mdl_declared_in_def stub_store_def stub_model_def
        smap_keys_def)

lemma inv_sum_AC: "pdf_inv stub_store sum_AC"
  by (simp add: sum_AC_eq pdf_inv_def mdl_declared_in_def stub_store_def stub_model_def
        smap_keys_def)

theorem composer_preserves_declared_names_witness:
  "pdf_inv stub_store product_AB \<and> stub_store 2 = Some (stub_model ''x'' 5)
   \<and> pdf_inv stub_store sum_AC \<and> models_keyed_by_name stub_store product_AB
   \<and> pdf_inv stub_store (append_model 2 (stub_model ''x'' 5) product_AB)
   \<and> pdf_inv stub_store (append_pdf sum_AC product_AB)
   \<and> pdf_inv stub_store (snd (plus_assign_model 2 (stub_model ''x'' 5) product_AB))
   \<and> pdf_inv stub_store (snd (mult_assign_pdf sum_AC product_AB))
   \<and> modelVars_of (localVars_of (pdf_varMap product_AB) [7, 8])
        (mdl_varMap (stub_model ''y'' 3)) = Inr [8]"
proof -
  have s: "stub_store 2 = Some (stub_model ''x'' 5)" by (simp add: stub_store_def)
  have k: "models_keyed_by_name stub_store product_AB"
    by (simp add: product_AB_eq models_keyed_by_name_def keyed_by_name_def
          par_keyed_by_name_def stub_store_def stub_model_def)
  have e: "modelVars_of (localVars_of (pdf_varMap product_AB) [7, 8])
        (mdl_varMap (stub_model ''y'' 3)) = Inr [8]"
    by (simp add: product_AB_eq localVars_of_def stub_model_def composer_defs)
  show ?thesis
    using composer_preserves_declared_names[OF inv_product_AB s inv_sum_AC]
      inv_product_AB s inv_sum_AC k e by blast
qed

section \<open>Properties of the three-body decay density\<close>

subsection \<open>The grid sum of the normalization\<close>

lemma cache_cell_add: "cache_cell d binX binY n = n + cache_cell d binX binY 0"
  by (simp add: cache_cell_def Let_def)

lemma fold_cache_cell:
  "fold (cache_cell d binX) js n = n + (\<Sum>binY\<leftarrow>js. cache_cell d binX binY 0)"
proof (induction js arbitrary: n)
  case Nil
  show ?case by simp
next
  case (Cons j js)
  show ?case
    by (simp add: Cons.IH cache_cell_add[of d binX j n])
qed

lemma fold_fold_cache_cell:
  "fold (\<lambda>binX. fold (cache_cell d binX) js) is n
     = n + (\<Sum>binX\<leftarrow>is. \<Sum>binY\<leftarrow>js. cache_cell d binX binY 0)"
proof (induction "is" arbitrary: n)
  case Nil
  show ?case by simp
next
  case (Cons i "is")
  show ?case
    by (simp add: Cons.IH fold_cache_cell[of d i js n])
qed

lemma norm_cache:
  "d_norm (cache d) =
     (\<Sum>binX\<leftarrow>[0..<nBins]. \<Sum>binY\<leftarrow>[0..<nBins]. cache_cell d binX binY 0)
       * ((ps_mSq12max (d_ps d) - ps_mSq12min (d_ps d)) / real nBins)\<^sup>2"
  by (simp add: cache_def Let_def fold_fold_cache_cell)

lemma cache_fields:
  "d_varMap (cache d) = d_varMap d" "d_parMap (cache d) = d_parMap d"
  "d_getVar (cache d) = d_getVar d" "d_amp (cache d) = d_amp d" "d_ps (cache d) = d_ps d"
  "d_maxPdf (cache d) = d_maxPdf d" "d_funcs (cache d) = d_funcs d"
  by (simp_all add: cache_def Let_def)

lemma sum_list_all_zero:
  "(\<And>x. x \<in> set xs \<Longrightarrow> f x = (0::real)) \<Longrightarrow> sum_list (map f xs) = 0"
  by (induction xs) auto

lemma sum_list_ge_member:
  "(\<And>x. x \<in> set xs \<Longrightarrow> (0::real) \<le> f x) \<Longrightarrow> y \<in> set xs \<Longrightarrow> f y \<le> sum_list (map f xs)"
proof (induction xs)
  case Nil
  then show ?case by simp
next
  case (Cons x xs)
  have nn: "0 \<le> sum_list (map f xs)"
    by (rule sum_list_nonneg) (use Cons.prems(1) in auto)
  show ?case
  proof (cases "y = x")
    case True
    with nn show ?thesis by simp
  next
    case False
    with Cons have "f y \<le> sum_list (map f xs)" by auto
    moreover have "0 \<le> f x" using Cons.prems(1) by simp
    ultimately show ?thesis by simp
  qed
qed

lemma evaluateFuncs_flat: "evaluateFuncs (flat_density ps) a b c = 1"
  by (simp add: evaluateFuncs_def flat_density_def)

lemma skew_cell_zero:
  assumes "binY < nBins"
  shows "cache_cell skew_density binX binY 0 = 0"
proof -
  have "real binY + 1 / 2 < 400" using assms by (simp add: nBins_def)
  then have "(real binY + 1 / 2) / 400 < 1" by simp
  then show ?thesis
    by (simp add: cache_cell_def skew_density_def flat_density_def box_PhaseSpace_def
          box_contains_def nBins_def Let_def)
qed

lemma skew_norm_zero: "d_norm (cache skew_density) = 0"
proof -
  have "(\<Sum>binY\<leftarrow>[0..<nBins]. cache_cell skew_density binX binY 0) = 0" for binX
    by (rule sum_list_all_zero) (simp add: skew_cell_zero)
  then show ?thesis by (simp add: norm_cache)
qed

lemma nBins_pos: "0 < nBins"
  by (simp add: nBins_def)

lemma double_sum_ge_first:
  assumes "\<And>i j. (0::real) \<le> f i j"
  shows "f 0 0 \<le> (\<Sum>i\<leftarrow>[0..<nBins]. \<Sum>j\<leftarrow>[0..<nBins]. f i j)"
proof -
  have inner: "0 \<le> (\<Sum>j\<leftarrow>[0..<nBins]. f i j)" for i
    by (rule sum_list_nonneg) (use assms in auto)
  have "f 0 0 \<le> (\<Sum>j\<leftarrow>[0..<nBins]. f 0 j)"
    by (rule sum_list_ge_member[where f = "f 0"]) (simp_all add: assms nBins_pos)
  also have "\<dots> \<le> (\<Sum>i\<leftarrow>[0..<nBins]. \<Sum>j\<leftarrow>[0..<nBins]. f i j)"
    by (rule sum_list_ge_member[where f = "\<lambda>i. \<Sum>j\<leftarrow>[0..<nBins]. f i j"])
       (simp_all add: inner nBins_pos)
  finally show ?thesis .
qed

lemma skew_defs_eval:
  "ps_mSq12min (d_ps skew_density) = 0" "ps_mSq12max (d_ps skew_density) = 1"
  "ps_mSqMin (d_ps skew_density) 1 = 1" "ps_mSqMax (d_ps skew_density) 1 = 4"
  by (simp_all add: skew_density_def flat_density_def box_PhaseSpace_def Let_def)

text \<open>
  Claim C2. The normalization stored by \<open>cache()\<close> is to be the midpoint-rule integral over
  the bounding rectangle of \<open>(mSq12, mSq13)\<close>, each axis with its own bounds. \<open>cache()\<close>
  places the bin centres of both axes with the bounds of \<open>mSq12\<close>. For daughters of
  different masses, with \<open>mSq12\<close> in \<open>[0, 1]\<close> and \<open>mSq13\<close> in \<open>[1, 4]\<close>, no bin centre of
  the code lies in the allowed region and the stored normalization is 0, while the
  integral over the bounding rectangle is positive.
\<close>

theorem cache_grid_ignores_mSq13_bounds:
  "ps_mSq12min (d_ps skew_density) = 0 \<and> ps_mSq12max (d_ps skew_density) = 1
   \<and> ps_mSqMin (d_ps skew_density) 1 = 1 \<and> ps_mSqMax (d_ps skew_density) 1 = 4
   \<and> d_norm (cache skew_density) = 0
   \<and> 0 < spec_grid_integral skew_density"
proof -
  let ?d = skew_density
  have nn: "0 \<le> spec_cell ?d i j" for i j
    by (simp add: spec_cell_def Let_def skew_density_def evaluateFuncs_flat std_norm_def)
  have "spec_cell ?d 0 0 = 1"
    by (simp add: spec_cell_def Let_def skew_density_def evaluateFuncs_def std_norm_def
          nBins_def flat_density_def box_PhaseSpace_def box_contains_def)
  moreover have "spec_cell ?d 0 0 \<le> (\<Sum>i\<leftarrow>[0..<nBins]. \<Sum>j\<leftarrow>[0..<nBins]. spec_cell ?d i j)"
    by (rule double_sum_ge_first) (rule nn)
  ultimately have "0 < (\<Sum>i\<leftarrow>[0..<nBins]. \<Sum>j\<leftarrow>[0..<nBins]. spec_cell ?d i j)" by linarith
  moreover have "ps_mSqMax (d_ps ?d) 0 - ps_mSqMin (d_ps ?d) 0 = 1"
    "ps_mSqMax (d_ps ?d) 1 - ps_mSqMin (d_ps ?d) 1 = 3"
    by (simp_all add: skew_density_def flat_density_def box_PhaseSpace_def Let_def)
  ultimately have "0 < spec_grid_integral ?d"
    by (simp add: spec_grid_integral_def Let_def nBins_def)
  then show ?thesis using skew_defs_eval skew_norm_zero by simp
qed

subsection \<open>A normalized density and a first accepted candidate\<close>

lemma even_raw_cell_nonneg: "0 \<le> cache_cell (flat_density ps) i j 0"
  by (simp add: cache_cell_def Let_def evaluateFuncs_flat std_norm_def)

lemma even_norm_pos: "0 < d_norm even_density"
proof -
  let ?d = "flat_density (box_PhaseSpace 3 0 1 1)"
  have "cache_cell ?d 0 0 0 = 1"
    by (simp add: cache_cell_def Let_def evaluateFuncs_def std_norm_def nBins_def
          flat_density_def box_PhaseSpace_def box_contains_def)
  moreover have "cache_cell ?d 0 0 0 \<le> (\<Sum>i\<leftarrow>[0..<nBins]. \<Sum>j\<leftarrow>[0..<nBins]. cache_cell ?d i j 0)"
    by (rule double_sum_ge_first) (rule even_raw_cell_nonneg)
  ultimately have "0 < (\<Sum>i\<leftarrow>[0..<nBins]. \<Sum>j\<leftarrow>[0..<nBins]. cache_cell ?d i j 0)" by linarith
  moreover have "ps_mSq12max (d_ps ?d) - ps_mSq12min (d_ps ?d) = 3"
    by (simp add: flat_density_def box_PhaseSpace_def Let_def)
  ultimately show ?thesis
    by (simp add: even_density_def norm_cache nBins_def)
qed

lemma even_fields:
  "d_getVar even_density = (\<lambda>i. if i = 0 then mass_var ''mSq12'' else if i = 1 then mass_var ''mSq13''
                      else mass_var ''mSq23'')"
  "d_ps even_density = box_PhaseSpace 3 0 1 1"
  "d_maxPdf even_density = 14" "d_funcs even_density = []"
  "d_amp even_density = (\<lambda>ps mSq12 mSq13 mSq23. 1)"
  "d_varMap even_density = [(''mSq12'', mass_var ''mSq12''), (''mSq13'', mass_var ''mSq13''),
                 (''mSq23'', mass_var ''mSq23'')]"
  by (simp_all add: even_density_def cache_fields flat_density_def)

lemma even_evaluate3: "evaluate3 even_density a b c = 1 / d_norm even_density"
  by (simp add: evaluate3_def evaluateFuncs_def even_fields std_norm_def)

lemma generate_first_accept:
  assumes "Random_flat ((ps_m1 (d_ps d) + ps_m2 (d_ps d))\<^sup>2)
             ((ps_mMother (d_ps d) - ps_m3 (d_ps d))\<^sup>2) rs = (mSq12, rs1)"
      and "Random_flat ((ps_m1 (d_ps d) + ps_m3 (d_ps d))\<^sup>2)
             ((ps_mMother (d_ps d) - ps_m2 (d_ps d))\<^sup>2) rs1 = (mSq13, rs2)"
      and "mSq23 = ps_mSqMother (d_ps d) + ps_mSq1 (d_ps d) + ps_mSq2 (d_ps d)
                     + ps_mSq3 (d_ps d) - mSq12 - mSq13"
      and "Random_flat 0 (d_maxPdf d) rs2 = (r, rs3)"
      and "r < evaluate3 d mSq12 mSq13 mSq23"
  shows "generate_loop d (Suc count) values rs =
           (smap_assign (v_name (d_getVar d 2)) mSq23
              (smap_assign (v_name (d_getVar d 1)) mSq13
                 (smap_assign (v_name (d_getVar d 0)) mSq12 values)), rs3)"
  using assms by (simp add: Let_def)

text \<open>
  Claim C3, as stated, fails: \<open>generate()\<close> accepts a candidate on the value of the density
  alone. With draws 7/8, 7/8 and 0 the first candidate is \<open>(29/8, 29/8, 15/4)\<close>, where
  \<open>mSq23\<close> lies below its bound 4; the density is positive there, the candidate is
  accepted and returned, and it is neither contained nor the all-zero point.
\<close>

theorem generate_returns_uncontained_point:
  "fst (generate even_density late_draws)
     = [(''mSq12'', 29 / 8), (''mSq13'', 29 / 8), (''mSq23'', 15 / 4)]
   \<and> \<not> ps_contains (d_ps even_density) (29 / 8) (29 / 8) (15 / 4)
   \<and> \<not> contained_or_zero even_density (fst (generate even_density late_draws))"
proof -
  let ?d = even_density
  have r1: "Random_flat ((ps_m1 (d_ps ?d) + ps_m2 (d_ps ?d))\<^sup>2)
             ((ps_mMother (d_ps ?d) - ps_m3 (d_ps ?d))\<^sup>2) late_draws
            = (29 / 8, \<lambda>n. late_draws (Suc n))"
    by (simp add: Random_flat_def even_fields box_PhaseSpace_def late_draws_def Let_def)
  have r2: "Random_flat ((ps_m1 (d_ps ?d) + ps_m3 (d_ps ?d))\<^sup>2)
             ((ps_mMother (d_ps ?d) - ps_m2 (d_ps ?d))\<^sup>2) (\<lambda>n. late_draws (Suc n))
            = (29 / 8, \<lambda>n. late_draws (Suc (Suc n)))"
    by (simp add: Random_flat_def even_fields box_PhaseSpace_def late_draws_def Let_def)
  have m23: "(15 / 4 :: real) = ps_mSqMother (d_ps ?d) + ps_mSq1 (d_ps ?d) + ps_mSq2 (d_ps ?d)
                     + ps_mSq3 (d_ps ?d) - 29 / 8 - 29 / 8"
    by (simp add: even_fields box_PhaseSpace_def Let_def)
  have r3: "Random_flat 0 (d_maxPdf ?d) (\<lambda>n. late_draws (Suc (Suc n)))
            = (0, \<lambda>n. late_draws (Suc (Suc (Suc n))))"
    by (simp add: Random_flat_def even_fields late_draws_def)
  have acc: "0 < evaluate3 ?d (29 / 8) (29 / 8) (15 / 4)"
    using even_norm_pos by (simp add: even_evaluate3)
  have "generate ?d late_draws = generate_loop ?d (Suc 9999) [] late_draws"
    by (simp add: generate_def)
  also have "\<dots> = (smap_assign (v_name (d_getVar ?d 2)) (15 / 4)
              (smap_assign (v_name (d_getVar ?d 1)) (29 / 8)
                 (smap_assign (v_name (d_getVar ?d 0)) (29 / 8) [])),
               \<lambda>n. late_draws (Suc (Suc (Suc n))))"
    by (rule generate_first_accept[OF r1 r2 m23 r3 acc])
  finally have g: "fst (generate ?d late_draws)
      = [(''mSq12'', 29 / 8), (''mSq13'', 29 / 8), (''mSq23'', 15 / 4)]"
    by (simp add: even_fields mass_var_def smap_assign_def smap_count_def smap_keys_def)
  have nc: "\<not> ps_contains (d_ps ?d) (29 / 8) (29 / 8) (15 / 4)"
    by (simp add: even_fields box_PhaseSpace_def box_contains_def Let_def)
  have "\<not> contained_or_zero ?d (fst (generate ?d late_draws))"
    unfolding g
    by (simp add: contained_or_zero_def point_of_def even_fields mass_var_def smap_find_def
          box_PhaseSpace_def box_contains_def Let_def)
  with g nc show ?thesis by simp
qed

subsection \<open>Lookups after insertion and assignment\<close>

lemma map_of_insort_key_fresh:
  "fst kv \<notin> fst ` set m \<Longrightarrow> map_of (insort_key fst kv m) = (map_of m)(fst kv \<mapsto> snd kv)"
proof (induction m)
  case Nil
  show ?case by simp
next
  case (Cons e m)
  then have ne: "fst e \<noteq> fst kv" and ih: "map_of (insort_key fst kv m) = (map_of m)(fst kv \<mapsto> snd kv)"
    by auto
  show ?case
  proof (cases "fst kv \<le> fst e")
    case True
    then show ?thesis by (auto simp: fun_eq_iff)
  next
    case False
    then show ?thesis using ne ih by (auto simp: fun_upd_twist)
  qed
qed

lemma map_of_replace:
  "map_of (map (\<lambda>kv. if fst kv = k then (k, v) else kv) m) k' =
     (if k' = k \<and> k \<in> fst ` set m then Some v else map_of m k')"
  by (induction m) (fastforce simp: image_iff)+

lemma smap_find_assign:
  "smap_find k' (smap_assign k v m) = (if k' = k then Some v else smap_find k' m)"
proof (cases "smap_count k m")
  case True
  then show ?thesis
    by (simp add: smap_find_def smap_assign_def map_of_replace smap_count_def smap_keys_def)
next
  case False
  then have "fst (k, v) \<notin> fst ` set m" by (simp add: smap_count_def smap_keys_def)
  from map_of_insort_key_fresh[OF this] False show ?thesis
    by (simp add: smap_find_def smap_assign_def)
qed

lemma smap_find_insert:
  "smap_find k (smap_insert kv m) =
     (case smap_find k m of Some v \<Rightarrow> Some v
      | None \<Rightarrow> if k = fst kv then Some (snd kv) else None)"
proof (cases "smap_count (fst kv) m")
  case True
  then obtain v where "smap_find (fst kv) m = Some v"
    using smap_find_Some_iff[of "fst kv" m] by blast
  with True show ?thesis
    by (auto simp: smap_insert_def split: option.splits)
next
  case False
  then have f: "fst kv \<notin> fst ` set m" by (simp add: smap_count_def smap_keys_def)
  have "smap_find (fst kv) m = None"
    using False smap_find_Some_iff[of "fst kv" m] by (cases "smap_find (fst kv) m") auto
  with False map_of_insort_key_fresh[OF f] show ?thesis
    by (auto simp: smap_insert_def smap_find_def split: option.splits)
qed

lemma smap_find_insert_range:
  "smap_find k (smap_insert_range src m) =
     (case smap_find k m of Some v \<Rightarrow> Some v | None \<Rightarrow> smap_find k src)"
  unfolding smap_insert_range_def
proof (induction src arbitrary: m)
  case Nil
  show ?case by (simp add: smap_find_def split: option.splits)
next
  case (Cons kv src)
  have ih: "smap_find k (fold smap_insert src (smap_insert kv m)) =
          (case smap_find k (smap_insert kv m) of Some v \<Rightarrow> Some v | None \<Rightarrow> smap_find k src)"
    by (rule Cons.IH)
  have hd: "smap_find k (kv # src) = (if k = fst kv then Some (snd kv) else smap_find k src)"
    by (cases kv) (simp add: smap_find_def)
  show ?case
  proof (cases "smap_find k m")
    case (Some v)
    then have "smap_find k (smap_insert kv m) = Some v" by (simp add: smap_find_insert)
    with ih Some show ?thesis by simp
  next
    case None
    show ?thesis
    proof (cases "k = fst kv")
      case True
      with None have "smap_find k (smap_insert kv m) = Some (snd kv)"
        by (simp add: smap_find_insert)
      with ih None True hd show ?thesis by simp
    next
      case False
      with None have "smap_find k (smap_insert kv m) = None"
        by (simp add: smap_find_insert)
      with ih None False hd show ?thesis by simp
    qed
  qed
qed

subsection \<open>Auxiliary factors\<close>

lemma depends_on_declared_iff:
  "depends_on_declared d right \<longleftrightarrow>
     (\<forall>var\<in>set (fn_varMap right). v_name (snd var) \<in> set (smap_keys (d_varMap d)))"
  by (simp add: depends_on_declared_def list_all_iff smap_count_def)

text \<open>
  Claim C4. Multiplying the density by a function that depends on a variable the density
  does not declare fails with \<open>DependencyError\<close>, and the density, in particular its list of
  auxiliary factors, its parameter map and its normalization, is left unchanged.
\<close>

theorem foreign_dependency_rejected_atomically:
  assumes "\<exists>var\<in>set (fn_varMap right). v_name (snd var) \<notin> set (smap_keys (d_varMap d))"
  shows "d_mult_assign right d = (Some DependencyError, d)
       \<and> d_funcs (snd (d_mult_assign right d)) = d_funcs d
       \<and> d_parMap (snd (d_mult_assign right d)) = d_parMap d
       \<and> d_norm (snd (d_mult_assign right d)) = d_norm d
       \<and> d_mult d right = Inl DependencyError"
proof -
  from assms have "\<not> depends_on_declared d right"
    by (auto simp: depends_on_declared_iff)
  then show ?thesis by (simp add: d_mult_assign_def d_mult_def)
qed

theorem foreign_dependency_rejected_atomically_witness:
  "(\<exists>var\<in>set (fn_varMap (aux_function ''t'' 2)).
       v_name (snd var) \<notin> set (smap_keys (d_varMap even_density)))
   \<and> d_mult_assign (aux_function ''t'' 2) even_density = (Some DependencyError, even_density)
   \<and> d_mult even_density (aux_function ''t'' 2) = Inl DependencyError"
proof -
  have h: "\<exists>var\<in>set (fn_varMap (aux_function ''t'' 2)).
       v_name (snd var) \<notin> set (smap_keys (d_varMap even_density))"
    by (simp add: aux_function_def mass_var_def even_fields smap_keys_def)
  from foreign_dependency_rejected_atomically[OF h] h show ?thesis by blast
qed

lemma declared_aux_mSq12: "depends_on_declared even_density (aux_function ''mSq12'' 2)"
  by (simp add: depends_on_declared_def aux_function_def mass_var_def even_fields
        smap_count_def smap_keys_def)

text \<open>
  Claim C5, as stated, fails: where the function and the density both have a parameter
  \<open>a\<close>, the density keeps its own entry (value 1) after a successful multiplication; the
  function's entry (value 2) does not overwrite it.
\<close>

theorem parameter_collision_keeps_own_entry:
  "fst (d_mult_assign (aux_function ''mSq12'' 2) even_density) = None
   \<and> smap_find ''a'' (d_parMap even_density) = Some \<lparr>p_name = ''a'', p_value = 1, p_error = 0\<rparr>
   \<and> smap_find ''a'' (fn_parMap (aux_function ''mSq12'' 2))
       = Some \<lparr>p_name = ''a'', p_value = 2, p_error = 0\<rparr>
   \<and> smap_find ''a'' (d_parMap (snd (d_mult_assign (aux_function ''mSq12'' 2) even_density)))
       = Some \<lparr>p_name = ''a'', p_value = 1, p_error = 0\<rparr>"
proof -
  have p: "d_parMap even_density = [(''a'', \<lparr>p_name = ''a'', p_value = 1, p_error = 0\<rparr>)]"
    by (simp add: even_density_def cache_fields flat_density_def)
  show ?thesis
    using declared_aux_mSq12
    by (simp add: d_mult_assign_def cache_fields p aux_function_def smap_find_def
          smap_insert_range_def smap_insert_def smap_count_def smap_keys_def)
qed

text \<open>
  Claim C5, amended. On a successful multiplication the function's parameters are merged
  into the density's parameter map, an entry of the density being kept where the names
  collide; the function is appended to the list of auxiliary factors; and the normalization
  is recomputed over the whole grid. The free operator returns the same density.
\<close>

theorem auxiliary_factor_success:
  assumes "depends_on_declared d right"
  shows "d_mult_assign right d =
           (None, cache (d\<lparr>d_parMap := smap_insert_range (fn_parMap right) (d_parMap d),
                            d_funcs := d_funcs d @ [right]\<rparr>))
       \<and> (\<forall>k. smap_find k (d_parMap (snd (d_mult_assign right d))) =
                (case smap_find k (d_parMap d) of
                   Some par \<Rightarrow> Some par
                 | None \<Rightarrow> smap_find k (fn_parMap right)))
       \<and> d_funcs (snd (d_mult_assign right d)) = d_funcs d @ [right]
       \<and> d_norm (snd (d_mult_assign right d)) =
           (\<Sum>binX\<leftarrow>[0..<nBins]. \<Sum>binY\<leftarrow>[0..<nBins].
               cache_cell (d\<lparr>d_parMap := smap_insert_range (fn_parMap right) (d_parMap d),
                              d_funcs := d_funcs d @ [right]\<rparr>) binX binY 0)
             * ((ps_mSq12max (d_ps d) - ps_mSq12min (d_ps d)) / real nBins)\<^sup>2
       \<and> d_mult d right = Inr (snd (d_mult_assign right d))"
  using assms
  by (simp add: d_mult_assign_def d_mult_def cache_fields smap_find_insert_range norm_cache)

theorem auxiliary_factor_success_witness:
  "depends_on_declared even_density (aux_function ''mSq12'' 2)
   \<and> fst (d_mult_assign (aux_function ''mSq12'' 2) even_density) = None
   \<and> d_funcs (snd (d_mult_assign (aux_function ''mSq12'' 2) even_density))
       = [aux_function ''mSq12'' 2]
   \<and> d_mult even_density (aux_function ''mSq12'' 2)
       = Inr (snd (d_mult_assign (aux_function ''mSq12'' 2) even_density))"
  using auxiliary_factor_success[OF declared_aux_mSq12] declared_aux_mSq12
  by (simp add: even_fields cache_fields)

subsection \<open>Positional evaluation\<close>

text \<open>
  Claim C8, as stated, fails: the three-body decay density declares three variables and
  its positional \<open>evaluate\<close> succeeds on a vector of two values.
\<close>

theorem decay_accepts_two_values:
  "length (d_varMap even_density) = 3
   \<and> d_evaluate_vec even_density [2, 2] = Inr (evaluate2 even_density 2 2)"
  by (simp add: even_fields d_evaluate_vec_def)

text \<open>
  Claim C8, amended. The positional \<open>evaluate\<close> of the three-body decay density succeeds
  on vectors of length 2, deriving \<open>mSq23\<close> from the mass-sum constraint, and of length 3,
  and fails with \<open>ArgumentCountMismatch\<close> for every other length; the positional
  \<open>evaluate\<close> of a composite fails with \<open>ArgumentCountMismatch\<close> whenever the length of
  the vector differs from the number of the composite's variables.
\<close>

theorem positional_evaluate_lengths:
  "(length vars = 2 \<longrightarrow> d_evaluate_vec d vars = Inr (evaluate2 d (vars ! 0) (vars ! 1)))
   \<and> (length vars = 3 \<longrightarrow>
        d_evaluate_vec d vars = Inr (evaluate3 d (vars ! 0) (vars ! 1) (vars ! 2)))
   \<and> (length vars \<noteq> 2 \<and> length vars \<noteq> 3 \<longrightarrow>
        d_evaluate_vec d vars = Inl ArgumentCountMismatch)
   \<and> (length vs \<noteq> length (pdf_varMap p) \<longrightarrow>
        evaluate_vec F h p vs = Inl ArgumentCountMismatch)"
  by (simp add: d_evaluate_vec_def evaluate_vec_def)

theorem positional_evaluate_lengths_witness:
  "d_evaluate_vec even_density [2, 2] = Inr (evaluate2 even_density 2 2)
   \<and> d_evaluate_vec even_density [2, 2, 7] = Inr (evaluate3 even_density 2 2 7)
   \<and> d_evaluate_vec even_density [2] = Inl ArgumentCountMismatch
   \<and> d_evaluate_vec even_density [2, 2, 7, 1] = Inl ArgumentCountMismatch
   \<and> evaluate_vec real_arith stub_store product_AB [1] = Inl ArgumentCountMismatch"
  using positional_evaluate_lengths[of "[2, 2]" even_density "[1]" product_AB real_arith stub_store]
        positional_evaluate_lengths[of "[2, 2, 7]" even_density "[1]" product_AB real_arith stub_store]
        positional_evaluate_lengths[of "[2]" even_density "[1]" product_AB real_arith stub_store]
        positional_evaluate_lengths[of "[2, 2, 7, 1]" even_density "[1]" product_AB real_arith stub_store]
  by (simp add: product_AB_eq)

subsection \<open>Generation, attempt by attempt\<close>

lemma attempt_shift3: "attempt d (shift3 rs) k = attempt d rs (Suc k)"
proof -
  have e: "3 + n = Suc (Suc (Suc n))" "4 + n = Suc (Suc (Suc (Suc n)))"
    "5 + n = Suc (Suc (Suc (Suc (Suc n))))" for n :: nat
    by simp_all
  show ?thesis by (simp add: attempt_def shift3_def Let_def e)
qed

lemma accepted_shift3: "accepted d (shift3 rs) k = accepted d rs (Suc k)"
  by (simp add: accepted_def attempt_shift3)

lemma candidate_shift3: "candidate_point d (shift3 rs) k = candidate_point d rs (Suc k)"
  by (simp add: candidate_point_def attempt_shift3)

lemma generate_loop_Suc:
  "generate_loop d (Suc count) values rs =
     (case attempt d rs 0 of (mSq12, mSq13, mSq23, r) \<Rightarrow>
        let values' = smap_assign (v_name (d_getVar d 2)) mSq23
                        (smap_assign (v_name (d_getVar d 1)) mSq13
                           (smap_assign (v_name (d_getVar d 0)) mSq12 values))
        in if r < evaluate3 d mSq12 mSq13 mSq23 then (values', shift3 rs)
           else generate_loop d count values' (shift3 rs))"
  by (simp add: attempt_def Random_flat_def shift3_def Let_def)

declare generate_loop.simps(2) [simp del]

lemma point_of_assigned:
  assumes "distinct [v_name (d_getVar d 0), v_name (d_getVar d 1), v_name (d_getVar d 2)]"
  shows "point_of d (smap_assign (v_name (d_getVar d 2)) c
                      (smap_assign (v_name (d_getVar d 1)) b
                         (smap_assign (v_name (d_getVar d 0)) a values)))
           = (Some a, Some b, Some c)"
  using assms by (auto simp: point_of_def smap_find_assign)

lemma generate_loop_rejected:
  assumes "distinct [v_name (d_getVar d 0), v_name (d_getVar d 1), v_name (d_getVar d 2)]"
  shows "(\<forall>k<n. \<not> accepted d rs k) \<Longrightarrow>
         point_of d (fst (generate_loop d n vals rs)) = (Some 0, Some 0, Some 0)"
proof (induction n arbitrary: vals rs)
  case 0
  show ?case using point_of_assigned[OF assms, of 0 0 0 vals] by (simp add: Let_def)
next
  case (Suc n)
  obtain a b c r where att: "attempt d rs 0 = (a, b, c, r)" by (cases "attempt d rs 0") auto
  from Suc.prems have "\<not> accepted d rs 0" by simp
  with att have rej: "\<not> r < evaluate3 d a b c" by (simp add: accepted_def)
  have "\<forall>k<n. \<not> accepted d (shift3 rs) k"
    using Suc.prems by (simp add: accepted_shift3)
  from Suc.IH[OF this] show ?case
    by (simp only: generate_loop_Suc att rej Let_def prod.case if_False)
qed

lemma generate_loop_accepted:
  assumes "distinct [v_name (d_getVar d 0), v_name (d_getVar d 1), v_name (d_getVar d 2)]"
  shows "k < n \<Longrightarrow> accepted d rs k \<Longrightarrow> (\<forall>j<k. \<not> accepted d rs j) \<Longrightarrow>
         point_of d (fst (generate_loop d n vals rs)) = candidate_point d rs k"
proof (induction n arbitrary: k vals rs)
  case 0
  then show ?case by simp
next
  case (Suc n)
  obtain a b c r where att: "attempt d rs 0 = (a, b, c, r)" by (cases "attempt d rs 0") auto
  show ?case
  proof (cases k)
    case 0
    with Suc.prems(2) att have acc: "r < evaluate3 d a b c" by (simp add: accepted_def)
    have "generate_loop d (Suc n) vals rs =
            (smap_assign (v_name (d_getVar d 2)) c
               (smap_assign (v_name (d_getVar d 1)) b
                  (smap_assign (v_name (d_getVar d 0)) a vals)), shift3 rs)"
      by (simp only: generate_loop_Suc att acc Let_def prod.case if_True)
    then show ?thesis
      using 0 att point_of_assigned[OF assms, of c b a vals]
      by (simp add: candidate_point_def)
  next
    case (Suc k')
    with Suc.prems(3) have "\<not> accepted d rs 0" by simp
    with att have rej: "\<not> r < evaluate3 d a b c" by (simp add: accepted_def)
    have 1: "k' < n" using Suc Suc.prems(1) by simp
    have 2: "accepted d (shift3 rs) k'" using Suc Suc.prems(2) by (simp add: accepted_shift3)
    have 3: "\<forall>j<k'. \<not> accepted d (shift3 rs) j"
      using Suc Suc.prems(3) by (simp add: accepted_shift3)
    from Suc.IH[OF 1 2 3] show ?thesis
      by (simp only: generate_loop_Suc att rej Let_def prod.case if_False
            candidate_shift3 Suc)
  qed
qed

lemma accepted_positive:
  assumes "accepted d rs k" "\<forall>n. 0 \<le> rs n" "0 \<le> d_maxPdf d"
  shows "case attempt d rs k of (a, b, c, r) \<Rightarrow> 0 < evaluate3 d a b c"
proof -
  obtain a b c r where att: "attempt d rs k = (a, b, c, r)" by (cases "attempt d rs k") auto
  then have "r = d_maxPdf d * rs (Suc (Suc (3 * k)))" by (simp add: attempt_def Let_def)
  with assms(2,3) have "0 \<le> r" by simp
  moreover from assms(1) att have "r < evaluate3 d a b c" by (simp add: accepted_def)
  ultimately show ?thesis using att by simp
qed

text \<open>
  Claim C3, amended. For a density whose three variables have different names and whose
  normalization is not zero, the point
  returned by \<open>generate()\<close> is the all-zero point when all 10,000 attempts are rejected, and
  otherwise the candidate of the first attempt whose acceptance draw lies below the density
  at the candidate. No containment test is applied: the returned point is contained or
  all-zero provided the density is not positive outside the allowed region (the draws of
  the source and the envelope bound being non-negative).
\<close>

theorem generate_returns_accepted_candidate_or_zero:
  assumes "distinct [v_name (d_getVar d 0), v_name (d_getVar d 1), v_name (d_getVar d 2)]"
      and "d_norm d \<noteq> 0"
  shows "(((\<forall>k<10000. \<not> accepted d rs k)
            \<and> point_of d (fst (generate d rs)) = (Some 0, Some 0, Some 0))
          \<or> (\<exists>k<10000. accepted d rs k \<and> (\<forall>j<k. \<not> accepted d rs j)
                \<and> point_of d (fst (generate d rs)) = candidate_point d rs k))
       \<and> ((\<forall>a b c. \<not> ps_contains (d_ps d) a b c \<longrightarrow> evaluate3 d a b c \<le> 0)
            \<and> (\<forall>n. 0 \<le> rs n) \<and> 0 \<le> d_maxPdf d
            \<longrightarrow> contained_or_zero d (fst (generate d rs)))"
proof -
  let ?P = "\<lambda>k. k < 10000 \<and> accepted d rs k"
  have main: "((\<forall>k<10000. \<not> accepted d rs k)
            \<and> point_of d (fst (generate d rs)) = (Some 0, Some 0, Some 0))
          \<or> (\<exists>k<10000. accepted d rs k \<and> (\<forall>j<k. \<not> accepted d rs j)
                \<and> point_of d (fst (generate d rs)) = candidate_point d rs k)"
  proof (cases "\<exists>k. ?P k")
    case False
    then have none: "\<forall>k<10000. \<not> accepted d rs k" by blast
    from generate_loop_rejected[OF assms(1) none] none show ?thesis
      by (simp add: generate_def)
  next
    case True
    define k where "k = (LEAST k. ?P k)"
    from True have Pk: "?P k" unfolding k_def by (rule LeastI_ex)
    have least: "\<forall>j<k. \<not> accepted d rs j"
    proof (intro allI impI)
      fix j assume "j < k"
      then have "\<not> ?P j" unfolding k_def by (rule not_less_Least)
      moreover from \<open>j < k\<close> Pk have "j < 10000" by simp
      ultimately show "\<not> accepted d rs j" by simp
    qed
    from Pk have "k < 10000" "accepted d rs k" by simp_all
    from generate_loop_accepted[OF assms(1) this least] Pk least show ?thesis
      unfolding generate_def by blast
  qed
  have cond: "contained_or_zero d (fst (generate d rs))"
    if out: "\<forall>a b c. \<not> ps_contains (d_ps d) a b c \<longrightarrow> evaluate3 d a b c \<le> 0"
      and nn: "\<forall>n. 0 \<le> rs n" and mx: "0 \<le> d_maxPdf d"
    using main
  proof (elim disjE conjE exE)
    assume "point_of d (fst (generate d rs)) = (Some 0, Some 0, Some 0)"
    then show ?thesis by (simp add: contained_or_zero_def)
  next
    fix k assume acc: "accepted d rs k"
      and pt: "point_of d (fst (generate d rs)) = candidate_point d rs k"
    obtain a b c r where att: "attempt d rs k = (a, b, c, r)" by (cases "attempt d rs k") auto
    from accepted_positive[OF acc nn mx] att have "0 < evaluate3 d a b c" by simp
    with out have "ps_contains (d_ps d) a b c" by force
    with pt att show ?thesis by (simp add: contained_or_zero_def candidate_point_def)
  qed
  from main cond show ?thesis by blast
qed

lemma gated_fields:
  "d_getVar gated_density = (\<lambda>i. if i = 0 then mass_var ''mSq12'' else if i = 1 then mass_var ''mSq13''
                      else mass_var ''mSq23'')"
  "d_maxPdf gated_density = 14" "d_funcs gated_density = []" "d_norm gated_density = 1"
  by (simp_all add: gated_density_def flat_density_def)

theorem generate_returns_accepted_candidate_or_zero_witness:
  "distinct [v_name (d_getVar gated_density 0), v_name (d_getVar gated_density 1),
             v_name (d_getVar gated_density 2)]
   \<and> d_norm gated_density \<noteq> 0 \<and> 0 \<le> d_maxPdf gated_density
   \<and> contained_or_zero gated_density (fst (generate gated_density late_draws))"
proof -
  have d: "distinct [v_name (d_getVar gated_density 0), v_name (d_getVar gated_density 1),
             v_name (d_getVar gated_density 2)]"
    by (simp add: gated_fields mass_var_def)
  have out: "\<forall>a b c. \<not> ps_contains (d_ps gated_density) a b c
               \<longrightarrow> evaluate3 gated_density a b c \<le> 0"
    by (simp add: evaluate3_def gated_density_def flat_density_def std_norm_def)
  have nn: "\<forall>n. 0 \<le> late_draws n" by (simp add: late_draws_def)
  have mx: "0 \<le> d_maxPdf gated_density" by (simp add: gated_fields)
  have nz: "d_norm gated_density \<noteq> 0" by (simp add: gated_fields)
  from generate_returns_accepted_candidate_or_zero[OF d nz, of late_draws] d out nn mx nz
  show ?thesis by blast
qed

end
